theory Spec2Isabelle
  imports Complex_Main "HOL-Library.Log_Nat"
begin

section \<open>The CodeDeploy deployment task: a model of TaskOperations.ts\<close>

text \<open>
  The class \<^verbatim>\<open>TaskOperations\<close> drives one deployment: it probes that the application, the
  deployment group and (for a revision already in S3) the bundle exist, uploads a bundle from
  the workspace when asked to, creates the deployment, sets the output variable and waits for
  the deployment to succeed.

  Everything the class does goes through a client or a library: the CodeDeploy and S3 clients,
  the file system, the pipeline's variables. The model makes them explicit:
  \<^item> the answers of the outside world are the fields of an environment \<open>Env\<close>, one function
    per call, from the call's arguments to its outcome;
  \<^item> the state the task changes is a record \<open>World\<close>: the local files, the pipeline
    variables, and the chronological list of the calls made so far (\<open>trace\<close>);
  \<^item> a rejected promise or a thrown \<^verbatim>\<open>Error\<close> is the \<open>Inl\<close> of a sum; the world reached at
    the point of failure is returned with it.
  Console output (\<^verbatim>\<open>console.log\<close>, \<^verbatim>\<open>tl.debug\<close>) is not modelled.
\<close>

subsection \<open>Strings\<close>

text \<open>
  A JavaScript string is modelled as a \<open>string\<close>. \<^verbatim>\<open>String.prototype.toLowerCase\<close>
  belongs to the JavaScript engine, with Unicode's case tables behind it; it is a part of the
  environment below and not defined here. On a string of ASCII characters it is the function
  \<open>asciiLowerCase\<close>: the letters \<^verbatim>\<open>A\<close> to \<^verbatim>\<open>Z\<close> become \<^verbatim>\<open>a\<close> to \<^verbatim>\<open>z\<close>, the rest stays.
\<close>

definition isAscii :: "char \<Rightarrow> bool" where
  "isAscii c = ((of_char c :: nat) < 128)"

definition asciiLowerChar :: "char \<Rightarrow> char" where
  "asciiLowerChar c =
     (let n = (of_char c :: nat) in if 65 \<le> n \<and> n \<le> 90 then char_of (n + 32) else c)"

definition asciiLowerCase :: "string \<Rightarrow> string" where
  "asciiLowerCase s = map asciiLowerChar s"

text \<open>
  \<^verbatim>\<open>if (s)\<close> on an optional string: \<^verbatim>\<open>undefined\<close> and the empty string are falsy.
\<close>

fun truthy :: "string option \<Rightarrow> bool" where
  "truthy None = False"
| "truthy (Some s) = (s \<noteq> [])"

text \<open>The decimal digits of a number, as a template literal prints a whole number.\<close>

definition digit_char :: "nat \<Rightarrow> char" where
  "digit_char d = char_of (48 + d)"

function decimal :: "nat \<Rightarrow> string" where
  "decimal n = (if n < 10 then [digit_char n] else decimal (n div 10) @ [digit_char (n mod 10)])"
  by pat_completeness auto
termination
  by (relation "measure id") auto

declare decimal.simps [simp del]

text \<open>
  \<^verbatim>\<open>String.prototype.slice(start, end)\<close> for \<open>0 \<le> start\<close> and \<open>0 \<le> end\<close>: the
  characters at the positions \<open>start, ..., end - 1\<close>.
\<close>

definition slice :: "string \<Rightarrow> int \<Rightarrow> int \<Rightarrow> string" where
  "slice s a b = take (nat b - nat a) (drop (nat a) s)"

subsection \<open>Numbers\<close>

text \<open>
  A JavaScript number is an IEEE 754 double: a finite value (a rational here), the negative
  zero, an infinity (\<open>True\<close> for the negative one) or \<^verbatim>\<open>NaN\<close>. The product and the quotient
  of two numbers are the exact ones rounded to the nearest double, ties to the even
  significand (\<open>fl\<close>): a double has 53 significant bits, its exponent is at least \<open>-1022\<close>
  (below that the spacing stays \<open>2^-1074\<close>), and a result of magnitude \<open>2^1024\<close> or more is
  an infinity.
\<close>

datatype number = Finite rat | NegZero | Infinity bool | NaN

definition isNegative :: "number \<Rightarrow> bool" where
  "isNegative x =
     (case x of Finite r \<Rightarrow> r < 0 | NegZero \<Rightarrow> True | Infinity s \<Rightarrow> s | NaN \<Rightarrow> False)"

definition signedZero :: "bool \<Rightarrow> number" where
  "signedZero s = (if s then NegZero else Finite 0)"

definition isZero :: "number \<Rightarrow> bool" where
  "isZero x = (x = Finite 0 \<or> x = NegZero)"

definition isFinite :: "number \<Rightarrow> bool" where
  "isFinite x = (case x of Finite r \<Rightarrow> True | NegZero \<Rightarrow> True | _ \<Rightarrow> False)"

text \<open>The value of a finite number; both zeros have the value 0.\<close>

definition valueOf :: "number \<Rightarrow> rat" where
  "valueOf x = (case x of Finite r \<Rightarrow> r | _ \<Rightarrow> 0)"

text \<open>The binary exponent of a positive rational \<open>a\<close>: the \<open>e\<close> with \<open>2^e \<le> a < 2^(e+1)\<close>.\<close>

definition exponent :: "rat \<Rightarrow> int" where
  "exponent a = (if 1 \<le> a then bitlen \<lfloor>a\<rfloor> - 1 else - bitlen (\<lceil>1 / a\<rceil> - 1))"

definition roundTiesToEven :: "rat \<Rightarrow> int" where
  "roundTiesToEven x =
     (let f = \<lfloor>x\<rfloor>; d = x - of_int f
      in if d < 1 / 2 then f else if 1 / 2 < d then f + 1 else if even f then f else f + 1)"

definition fl :: "rat \<Rightarrow> number" where
  "fl x =
     (if x = 0 then Finite 0
      else
        let a = \<bar>x\<bar>;
            e = max (exponent a) (- 1022);
            q = 2 powi (e - 52);
            n = roundTiesToEven (a / q);
            m = of_int n * q
        in if 2 ^ 1024 \<le> m then Infinity (x < 0)
           else if n = 0 then signedZero (x < 0)
           else Finite (if x < 0 then - m else m))"

text \<open>The operators \<^verbatim>\<open>*\<close> and \<^verbatim>\<open>/\<close> on numbers.\<close>

definition num_times :: "number \<Rightarrow> number \<Rightarrow> number" where
  "num_times x y =
     (if x = NaN \<or> y = NaN then NaN
      else if \<not> isFinite x \<or> \<not> isFinite y then
        (if isZero x \<or> isZero y then NaN else Infinity (isNegative x \<noteq> isNegative y))
      else if isZero x \<or> isZero y then signedZero (isNegative x \<noteq> isNegative y)
      else fl (valueOf x * valueOf y))"

definition num_divide :: "number \<Rightarrow> number \<Rightarrow> number" where
  "num_divide x y =
     (if x = NaN \<or> y = NaN then NaN
      else if \<not> isFinite x then
        (if \<not> isFinite y then NaN else Infinity (isNegative x \<noteq> isNegative y))
      else if \<not> isFinite y then signedZero (isNegative x \<noteq> isNegative y)
      else if isZero y then
        (if isZero x then NaN else Infinity (isNegative x \<noteq> isNegative y))
      else if isZero x then signedZero (isNegative x \<noteq> isNegative y)
      else fl (valueOf x / valueOf y))"

text \<open>
  \<^verbatim>\<open>Math.round\<close>: the nearest whole number, a half rounded up; the negative zero for a
  negative number that rounds to zero; an infinity, \<^verbatim>\<open>NaN\<close> and the negative zero unchanged.
\<close>

definition Math_round :: "number \<Rightarrow> number" where
  "Math_round x =
     (case x of
        Finite r \<Rightarrow>
          (let n = \<lfloor>r + 1 / 2\<rfloor> in if n = 0 \<and> r < 0 then NegZero else Finite (of_int n))
      | _ \<Rightarrow> x)"

text \<open>
  The attempts as the spec words them, \<^verbatim>\<open>round(timeoutMinutes * 60 / 15)\<close>, computed
  exactly on the rationals, a half rounded up.
\<close>

definition specMaxAttempts :: "rat \<Rightarrow> int" where
  "specMaxAttempts timeoutMinutes = \<lfloor>timeoutMinutes * 60 / 15 + 1 / 2\<rfloor>"

subsection \<open>Node's path module\<close>

text \<open>
  \<^verbatim>\<open>path.basename\<close> and \<^verbatim>\<open>path.extname\<close> are Node's. They scan the path from its last
  character backwards; the model follows Node's loops, with \<open>-1\<close> for "not seen yet" as in
  Node. The module behaves differently on Windows (two separators, a drive prefix), so the
  platform is a parameter.
\<close>

datatype platform = Posix | Win32

definition isPathSeparator :: "platform \<Rightarrow> char \<Rightarrow> bool" where
  "isPathSeparator pf c = (c = CHR ''/'' \<or> (pf = Win32 \<and> c = CHR 0x5C))"

definition isWindowsDeviceRoot :: "char \<Rightarrow> bool" where
  "isWindowsDeviceRoot c =
     (let n = (of_char c :: nat) in (65 \<le> n \<and> n \<le> 90) \<or> (97 \<le> n \<and> n \<le> 122))"

text \<open>
  On Windows both functions start by stepping over a drive prefix such as \<^verbatim>\<open>C:\<close>; the
  loops then stop at position 2 instead of 0.
\<close>

definition driveStart :: "platform \<Rightarrow> string \<Rightarrow> nat" where
  "driveStart pf path =
     (if pf = Win32 \<and> 2 \<le> length path \<and> path ! 1 = CHR '':'' \<and> isWindowsDeviceRoot (path ! 0)
      then 2 else 0)"

record basename_state =
  bn_start :: int
  bn_end :: int
  bn_matchedSlash :: bool

text \<open>
  The loop \<^verbatim>\<open>for (i = path.length - 1; i >= start; --i)\<close> of \<^verbatim>\<open>basename\<close>; the counter
  \<open>n\<close> is \<open>i + 1\<close>, and \<open>lo\<close> is the bound the loop was entered with.
\<close>

fun basename_loop :: "platform \<Rightarrow> string \<Rightarrow> nat \<Rightarrow> nat \<Rightarrow> basename_state \<Rightarrow> basename_state" where
  "basename_loop pf path lo 0 st = st"
| "basename_loop pf path lo (Suc i) st =
     (if i < lo then st
      else if isPathSeparator pf (path ! i) then
        (if \<not> bn_matchedSlash st then st\<lparr>bn_start := int i + 1\<rparr>
         else basename_loop pf path lo i st)
      else if bn_end st = -1 then
        basename_loop pf path lo i (st\<lparr>bn_matchedSlash := False, bn_end := int i + 1\<rparr>)
      else basename_loop pf path lo i st)"

definition basename :: "platform \<Rightarrow> string \<Rightarrow> string" where
  "basename pf path =
     (let lo = driveStart pf path;
          st = basename_loop pf path lo (length path)
                 \<lparr>bn_start = int lo, bn_end = -1, bn_matchedSlash = True\<rparr>
      in if bn_end st = -1 then [] else slice path (bn_start st) (bn_end st))"

record extname_state =
  startDot :: int
  startPart :: int
  endIdx :: int
  matchedSlash :: bool
  preDotState :: int

fun extname_loop :: "platform \<Rightarrow> string \<Rightarrow> nat \<Rightarrow> nat \<Rightarrow> extname_state \<Rightarrow> extname_state" where
  "extname_loop pf path lo 0 st = st"
| "extname_loop pf path lo (Suc i) st =
     (if i < lo then st
      else if isPathSeparator pf (path ! i) then
        (if \<not> matchedSlash st then st\<lparr>startPart := int i + 1\<rparr>
         else extname_loop pf path lo i st)
      else
        (let st1 = (if endIdx st = -1 then st\<lparr>endIdx := int i + 1, matchedSlash := False\<rparr> else st);
             st2 = (if path ! i = CHR ''.'' then
                      (if startDot st1 = -1 then st1\<lparr>startDot := int i\<rparr>
                       else if preDotState st1 \<noteq> 1 then st1\<lparr>preDotState := 1\<rparr>
                       else st1)
                    else if startDot st1 \<noteq> -1 then st1\<lparr>preDotState := -1\<rparr>
                    else st1)
         in extname_loop pf path lo i st2))"

definition extname :: "platform \<Rightarrow> string \<Rightarrow> string" where
  "extname pf path =
     (let lo = driveStart pf path;
          st = extname_loop pf path lo (length path)
                 \<lparr>startDot = -1, startPart = int lo, endIdx = -1, matchedSlash = True,
                  preDotState = 0\<rparr>
      in if startDot st = -1 \<or> endIdx st = -1 \<or> preDotState st = 0 \<or>
            (preDotState st = 1 \<and> startDot st = endIdx st - 1 \<and> startDot st = startPart st + 1)
         then []
         else slice path (startDot st) (endIdx st))"

text \<open>
  The invariant of the loop of \<^verbatim>\<open>extname\<close> once it has met the last character of the
  last segment: the positions \<open>s, ..., e - 1\<close> scanned so far hold no separator, \<open>e\<close> is the
  end found, \<open>startDot\<close> is the last dot among them (if any), and \<open>preDotState\<close> tells
  whether that dot is at \<open>s\<close> and, if not, whether the character at \<open>s\<close> is a dot.
\<close>

definition in_segment :: "platform \<Rightarrow> string \<Rightarrow> nat \<Rightarrow> nat \<Rightarrow> extname_state \<Rightarrow> bool" where
  "in_segment pf path s e st =
     (endIdx st = int e \<and> \<not> matchedSlash st \<and> s < e \<and> e \<le> length path \<and>
      (\<forall>i \<in> {s..<e}. \<not> isPathSeparator pf (path ! i)) \<and>
      (if \<forall>i \<in> {s..<e}. path ! i \<noteq> CHR ''.''
       then startDot st = -1 \<and> preDotState st = 0
       else \<exists>k \<in> {s..<e}. startDot st = int k \<and> path ! k = CHR ''.'' \<and>
              (\<forall>i \<in> {Suc k..<e}. path ! i \<noteq> CHR ''.'') \<and>
              preDotState st = (if k = s then 0 else if path ! s = CHR ''.'' then 1 else -1)))"

subsection \<open>The task's parameters\<close>

text \<open>
  Modelled from the spec: the interface \<^verbatim>\<open>TaskParameters\<close> is declared in
  TaskParameters.ts, which is not among the sources. The record has the fields that
  \<^verbatim>\<open>TaskOperations\<close> reads, which are the options the spec lists. An optional input is a
  \<open>string option\<close> (\<open>None\<close> for \<^verbatim>\<open>undefined\<close>). The timeout is a number.
\<close>

record TaskParameters =
  applicationName :: string
  deploymentGroupName :: string
  deploymentRevisionSource :: string
  revisionBundle :: string
  bucketName :: string
  bundleKey :: string
  bundlePrefix :: "string option"
  filesAcl :: "string option"
  description :: "string option"
  fileExistsBehavior :: string
  ignoreApplicationStopFailures :: bool
  updateOutdatedInstancesOnly :: bool
  outputVariable :: "string option"
  timeoutInMins :: number

text \<open>
  Modelled from the spec: the constants \<^verbatim>\<open>revisionSourceFromWorkspace\<close> and
  \<^verbatim>\<open>revisionSourceFromS3\<close> are declared in TaskParameters.ts, which is not among the
  sources. The spec names two distinct revision sources, the workspace and the object store;
  the model gives them the two distinct strings below.
\<close>

definition revisionSourceFromWorkspace :: string where
  "revisionSourceFromWorkspace = ''workspace''"

definition revisionSourceFromS3 :: string where
  "revisionSourceFromS3 = ''s3''"

subsection \<open>Requests, calls and errors\<close>

record PutObjectRequest =
  Bucket :: string
  Key :: string
  Body :: string
  ACL :: "string option"

record S3Location =
  s3_bucket :: string
  s3_key :: string
  s3_bundleType :: string

record CreateDeploymentInput =
  cd_applicationName :: string
  cd_deploymentGroupName :: string
  cd_fileExistsBehavior :: string
  cd_ignoreApplicationStopFailures :: bool
  cd_updateOutdatedInstancesOnly :: bool
  cd_revisionType :: string
  cd_s3Location :: S3Location
  cd_description :: "string option"

record WaiterParams =
  wp_deploymentId :: string
  wp_maxAttempts :: number

text \<open>One constructor for each call that leaves the task.\<close>

datatype event =
    GetApplication string
  | GetDeploymentGroup string string
  | HeadObject string string
  | Stats string
  | WriteZip string string
  | Upload PutObjectRequest
  | UnlinkSync string
  | CreateDeployment CreateDeploymentInput
  | SetVariable string string
  | WaitFor WaiterParams

text \<open>
  The errors the task ends with. The first five are the \<^verbatim>\<open>Error\<close>s the task builds itself,
  named by the key of their message and carrying the message's arguments. The others are the
  errors of a client or library that the task throws on unchanged.
\<close>

datatype error =
    ApplicationDoesNotExist string
  | DeploymentGroupDoesNotExist string string
  | RevisionBundleDoesNotExist string string
  | UnknownRevisionSource string
  | DeploymentFailed string string
  | SdkError string
  | ZipFailure string
  | FsError string

subsection \<open>The outside world\<close>

text \<open>
  What \<^verbatim>\<open>tl.stats\<close> finds at a path: a folder (\<^verbatim>\<open>isDirectory()\<close>) or something else,
  called a file here.
\<close>

datatype node = File | Directory

record World =
  fs :: "string \<Rightarrow> node option"
  variables :: "string \<Rightarrow> string option"
  trace :: "event list"

text \<open>
  The environment. A probe answers whether the resource was found; \<open>writeZip\<close>, \<open>upload\<close>
  and \<open>waitFor\<close> answer \<open>None\<close> on success and the error's message otherwise;
  \<open>createDeployment\<close> answers an error message or the response's \<^verbatim>\<open>deploymentId\<close>,
  which the service may leave out. \<open>tempLocation\<close> stands for
  \<^verbatim>\<open>SdkUtils.getTempLocation()\<close>, \<open>now\<close> for \<^verbatim>\<open>new Date().getTime()\<close>, \<open>pathJoin\<close>
  for \<^verbatim>\<open>path.join\<close> and \<open>toLowerCase\<close> for \<^verbatim>\<open>String.prototype.toLowerCase\<close>.
\<close>

record Env =
  platform :: platform
  getApplication :: "string \<Rightarrow> bool"
  getDeploymentGroup :: "string \<Rightarrow> string \<Rightarrow> bool"
  headObject :: "string \<Rightarrow> string \<Rightarrow> bool"
  tempLocation :: string
  now :: nat
  pathJoin :: "string \<Rightarrow> string \<Rightarrow> string"
  toLowerCase :: "string \<Rightarrow> string"
  writeZip :: "string \<Rightarrow> string \<Rightarrow> string option"
  upload :: "PutObjectRequest \<Rightarrow> string option"
  createDeployment :: "CreateDeploymentInput \<Rightarrow> string + string option"
  waitFor :: "WaiterParams \<Rightarrow> string option"

text \<open>
  What \<^verbatim>\<open>toLowerCase\<close> does in every engine on the strings of ASCII characters.
\<close>

definition lowersAscii :: "Env \<Rightarrow> bool" where
  "lowersAscii env = (\<forall>s. list_all isAscii s \<longrightarrow> toLowerCase env s = asciiLowerCase s)"

definition emit :: "event \<Rightarrow> World \<Rightarrow> World" where
  "emit e w = w\<lparr>trace := trace w @ [e]\<rparr>"

subsection \<open>The operations\<close>

definition verifyResourcesExist :: "TaskParameters \<Rightarrow> Env \<Rightarrow> World \<Rightarrow> (error + unit) \<times> World" where
  "verifyResourcesExist p env w =
     (let w1 = emit (GetApplication (applicationName p)) w in
      if \<not> getApplication env (applicationName p)
      then (Inl (ApplicationDoesNotExist (applicationName p)), w1)
      else
        let w2 = emit (GetDeploymentGroup (applicationName p) (deploymentGroupName p)) w1 in
        if \<not> getDeploymentGroup env (applicationName p) (deploymentGroupName p)
        then (Inl (DeploymentGroupDoesNotExist (deploymentGroupName p) (applicationName p)), w2)
        else if deploymentRevisionSource p = revisionSourceFromS3 then
          (let w3 = emit (HeadObject (bucketName p) (bundleKey p)) w2 in
           if \<not> headObject env (bucketName p) (bundleKey p)
           then (Inl (RevisionBundleDoesNotExist (bundleKey p) (bucketName p)), w3)
           else (Inr (), w3))
        else (Inr (), w2))"

text \<open>
  \<^verbatim>\<open>createDeploymentArchive\<close>: the archive is \<^verbatim>\<open><applicationName>.v<time>.zip\<close> in the
  temporary location. When the zip library throws, the error is thrown on; otherwise the
  archive is a file afterwards.
\<close>

definition createDeploymentArchive ::
  "Env \<Rightarrow> string \<Rightarrow> string \<Rightarrow> World \<Rightarrow> (error + string) \<times> World" where
  "createDeploymentArchive env bundleFolder appName w =
     (let versionSuffix = ''.v'' @ decimal (now env);
          archive = pathJoin env (tempLocation env) (appName @ versionSuffix @ ''.zip'');
          w1 = emit (WriteZip bundleFolder archive) w
      in case writeZip env bundleFolder archive of
           Some msg \<Rightarrow> (Inl (ZipFailure msg), w1)
         | None \<Rightarrow> (Inr archive, w1\<lparr>fs := (fs w1)(archive \<mapsto> File)\<rparr>))"

text \<open>The object key of the bundle (lines 114 to 120 of \<^verbatim>\<open>uploadBundle\<close>).\<close>

definition bundleObjectKey :: "platform \<Rightarrow> string option \<Rightarrow> string \<Rightarrow> string" where
  "bundleObjectKey pf prefix archiveName =
     (let bundleFilename = basename pf archiveName in
      if truthy prefix then (case prefix of Some pre \<Rightarrow> pre @ ''/'' @ bundleFilename | None \<Rightarrow> bundleFilename)
      else bundleFilename)"

text \<open>
  \<^verbatim>\<open>fs.unlinkSync\<close>: removes a file; throws when there is no file at the path. The
  model's file system knows files and folders only (no permissions, no other process), so
  removing a file that is there succeeds.
\<close>

definition unlinkSync :: "string \<Rightarrow> World \<Rightarrow> (error + unit) \<times> World" where
  "unlinkSync file w =
     (let w1 = emit (UnlinkSync file) w in
      case fs w1 file of
        Some File \<Rightarrow> (Inr (), w1\<lparr>fs := (fs w1)(file := None)\<rparr>)
      | _ \<Rightarrow> (Inl (FsError file), w1))"

text \<open>
  \<^verbatim>\<open>uploadBundle\<close>. \<^verbatim>\<open>tl.stats\<close> throws when nothing is at the path. The \<^verbatim>\<open>catch\<close>
  block logs the error and throws it again, so an error of the upload or of the deletion leaves
  the function as it is.
\<close>

definition uploadBundle :: "TaskParameters \<Rightarrow> Env \<Rightarrow> World \<Rightarrow> (error + string) \<times> World" where
  "uploadBundle p env w =
     (let w0 = emit (Stats (revisionBundle p)) w in
      case fs w0 (revisionBundle p) of
        None \<Rightarrow> (Inl (FsError (revisionBundle p)), w0)
      | Some nd \<Rightarrow>
         (let autoCreatedArchive = (nd = Directory) in
          case (if autoCreatedArchive
                then createDeploymentArchive env (revisionBundle p) (applicationName p) w0
                else (Inr (revisionBundle p), w0)) of
            (Inl e, w1) \<Rightarrow> (Inl e, w1)
          | (Inr archiveName, w1) \<Rightarrow>
             (let key = bundleObjectKey (platform env) (bundlePrefix p) archiveName;
                  request = \<lparr>Bucket = bucketName p, Key = key, Body = archiveName,
                             ACL = (if truthy (filesAcl p) \<and> filesAcl p \<noteq> Some ''none''
                                    then filesAcl p else None)\<rparr>;
                  w2 = emit (Upload request) w1
              in case upload env request of
                   Some msg \<Rightarrow> (Inl (SdkError msg), w2)
                 | None \<Rightarrow>
                    if autoCreatedArchive then
                      (case unlinkSync archiveName w2 of
                         (Inl e, w3) \<Rightarrow> (Inl e, w3)
                       | (Inr _, w3) \<Rightarrow> (Inr key, w3))
                    else (Inr key, w2))))"

text \<open>
  The identifier \<^verbatim>\<open>deployRevision\<close> returns for the \<^verbatim>\<open>deploymentId\<close> of a response
  (lines 221 to 225): the identifier itself, the empty string when there is none.
\<close>

definition returnedId :: "string option \<Rightarrow> string" where
  "returnedId deploymentId = (case deploymentId of Some d \<Rightarrow> d | None \<Rightarrow> [])"

text \<open>The archive type of a bundle key (lines 179 to 187 of \<^verbatim>\<open>deployRevision\<close>).\<close>

definition archiveTypeOf :: "Env \<Rightarrow> string \<Rightarrow> string" where
  "archiveTypeOf env key =
     (let archiveType = extname (platform env) key in
      if archiveType \<noteq> [] \<and> length archiveType > 1
      then toLowerCase env (drop 1 archiveType)
      else ''zip'')"

definition deployRevision :: "TaskParameters \<Rightarrow> Env \<Rightarrow> string \<Rightarrow> World \<Rightarrow> (error + string) \<times> World" where
  "deployRevision p env key w =
     (let archiveType = archiveTypeOf env key;
          request = \<lparr>cd_applicationName = applicationName p,
                     cd_deploymentGroupName = deploymentGroupName p,
                     cd_fileExistsBehavior = fileExistsBehavior p,
                     cd_ignoreApplicationStopFailures = ignoreApplicationStopFailures p,
                     cd_updateOutdatedInstancesOnly = updateOutdatedInstancesOnly p,
                     cd_revisionType = ''S3'',
                     cd_s3Location = \<lparr>s3_bucket = bucketName p, s3_key = key,
                                       s3_bundleType = archiveType\<rparr>,
                     cd_description = (if truthy (description p) then description p else None)\<rparr>;
          w1 = emit (CreateDeployment request) w
      in case createDeployment env request of
           Inl msg \<Rightarrow> (Inl (SdkError msg), w1)
         | Inr deploymentId \<Rightarrow>
            (if \<not> truthy deploymentId then (Inr [], w1)
             else (Inr (case deploymentId of Some d \<Rightarrow> d | None \<Rightarrow> []), w1)))"

text \<open>
  \<^verbatim>\<open>setWaiterParams\<close>: \<^verbatim>\<open>Math.round((timeout * 60) / 15)\<close>, in the arithmetic of numbers.
\<close>

definition setWaiterParams :: "string \<Rightarrow> number \<Rightarrow> WaiterParams" where
  "setWaiterParams deploymentId timeout =
     \<lparr>wp_deploymentId = deploymentId,
      wp_maxAttempts = Math_round (num_divide (num_times timeout (Finite 60)) (Finite 15))\<rparr>"

definition waitForDeploymentCompletion ::
  "Env \<Rightarrow> string \<Rightarrow> string \<Rightarrow> number \<Rightarrow> World \<Rightarrow> (error + unit) \<times> World" where
  "waitForDeploymentCompletion env appName deploymentId timeout w =
     (let params = setWaiterParams deploymentId timeout;
          w1 = emit (WaitFor params) w
      in case waitFor env params of
           Some msg \<Rightarrow> (Inl (DeploymentFailed appName msg), w1)
         | None \<Rightarrow> (Inr (), w1))"

text \<open>\<^verbatim>\<open>tl.setVariable\<close>: the pipeline variable holds the value afterwards.\<close>

definition setVariable :: "string \<Rightarrow> string \<Rightarrow> World \<Rightarrow> World" where
  "setVariable name val w = (emit (SetVariable name val) w)\<lparr>variables := (variables w)(name \<mapsto> val)\<rparr>"

text \<open>The \<^verbatim>\<open>switch\<close> of \<^verbatim>\<open>execute\<close> (lines 31 to 41).\<close>

definition resolveBundleKey :: "TaskParameters \<Rightarrow> Env \<Rightarrow> World \<Rightarrow> (error + string) \<times> World" where
  "resolveBundleKey p env w =
     (if deploymentRevisionSource p = revisionSourceFromWorkspace then uploadBundle p env w
      else if deploymentRevisionSource p = revisionSourceFromS3 then (Inr (bundleKey p), w)
      else (Inl (UnknownRevisionSource (deploymentRevisionSource p)), w))"

text \<open>
  \<^verbatim>\<open>execute\<close>: the probes, the bundle key, the deployment, then the output variable (set
  when a name is configured, \<^verbatim>\<open>if (outputVariable)\<close>) and, in the world that results, the
  wait.
\<close>

definition execute :: "TaskParameters \<Rightarrow> Env \<Rightarrow> World \<Rightarrow> (error + unit) \<times> World" where
  "execute p env w =
     (case verifyResourcesExist p env w of
        (Inl e, w1) \<Rightarrow> (Inl e, w1)
      | (Inr _, w1) \<Rightarrow>
         (case resolveBundleKey p env w1 of
            (Inl e, w2) \<Rightarrow> (Inl e, w2)
          | (Inr key, w2) \<Rightarrow>
             (case deployRevision p env key w2 of
                (Inl e, w3) \<Rightarrow> (Inl e, w3)
              | (Inr deploymentId, w3) \<Rightarrow>
                  waitForDeploymentCompletion env (applicationName p) deploymentId
                    (timeoutInMins p)
                    (case outputVariable p of
                       Some name \<Rightarrow> if name \<noteq> [] then setVariable name deploymentId w3 else w3
                     | None \<Rightarrow> w3))))"

subsection \<open>The calls of one run\<close>

text \<open>
  The calls that one run of \<open>execute\<close> adds to the trace, in the order they are made.
\<close>

definition calls :: "TaskParameters \<Rightarrow> Env \<Rightarrow> World \<Rightarrow> event list" where
  "calls p env w = drop (length (trace w)) (trace (snd (execute p env w)))"

text \<open>
  The calls of the precondition checks, and the calls of \<^verbatim>\<open>uploadBundle\<close>.
\<close>

fun probe_event :: "event \<Rightarrow> bool" where
  "probe_event (GetApplication a) = True"
| "probe_event (GetDeploymentGroup a g) = True"
| "probe_event (HeadObject b k) = True"
| "probe_event e = False"

fun bundle_event :: "event \<Rightarrow> bool" where
  "bundle_event (Stats f) = True"
| "bundle_event (WriteZip d a) = True"
| "bundle_event (Upload r) = True"
| "bundle_event (UnlinkSync f) = True"
| "bundle_event e = False"


text \<open>The calls that follow the resolution of the bundle key.\<close>

fun deploy_event :: "event \<Rightarrow> bool" where
  "deploy_event (CreateDeployment r) = True"
| "deploy_event (SetVariable n v) = True"
| "deploy_event (WaitFor wp) = True"
| "deploy_event e = False"

text \<open>
  The answers of the service under which \<open>verifyResourcesExist\<close> returns: the
  application and the deployment group are found and, for a revision in S3, the bundle is.
\<close>

definition probesSucceed :: "TaskParameters \<Rightarrow> Env \<Rightarrow> bool" where
  "probesSucceed p env =
     (getApplication env (applicationName p) \<and>
      getDeploymentGroup env (applicationName p) (deploymentGroupName p) \<and>
      (deploymentRevisionSource p = revisionSourceFromS3 \<longrightarrow>
         headObject env (bucketName p) (bundleKey p)))"

subsection \<open>A concrete run\<close>

text \<open>
  A deployment of the folder \<^verbatim>\<open>/src\<close> from the workspace, on a POSIX agent where every call
  succeeds. The examples below vary it.
\<close>

definition demo_params :: TaskParameters where
  "demo_params =
     \<lparr>applicationName = ''app'', deploymentGroupName = ''grp'',
      deploymentRevisionSource = ''workspace'', revisionBundle = ''/src'',
      bucketName = ''bkt'', bundleKey = ''bundle.tar'', bundlePrefix = Some ''p'',
      filesAcl = None, description = None, fileExistsBehavior = ''DISALLOW'',
      ignoreApplicationStopFailures = False, updateOutdatedInstancesOnly = False,
      outputVariable = Some ''id'', timeoutInMins = Finite 5\<rparr>"

definition demo_env :: Env where
  "demo_env =
     \<lparr>platform = Posix,
      getApplication = (\<lambda>a. True),
      getDeploymentGroup = (\<lambda>a g. True),
      headObject = (\<lambda>b k. True),
      tempLocation = ''/tmp'',
      now = 123,
      pathJoin = (\<lambda>d f. d @ ''/'' @ f),
      toLowerCase = asciiLowerCase,
      writeZip = (\<lambda>d a. None),
      upload = (\<lambda>r. None),
      createDeployment = (\<lambda>r. Inr (Some ''d-1'')),
      waitFor = (\<lambda>wp. None)\<rparr>"

definition demo_world :: World where
  "demo_world =
     \<lparr>fs = (\<lambda>f. if f = ''/src'' then Some Directory
                 else if f = ''/b.zip'' then Some File else None),
      variables = (\<lambda>v. None), trace = []\<rparr>"

definition demo_request :: CreateDeploymentInput where
  "demo_request =
     \<lparr>cd_applicationName = ''app'', cd_deploymentGroupName = ''grp'',
      cd_fileExistsBehavior = ''DISALLOW'', cd_ignoreApplicationStopFailures = False,
      cd_updateOutdatedInstancesOnly = False, cd_revisionType = ''S3'',
      cd_s3Location = \<lparr>s3_bucket = ''bkt'', s3_key = ''p/app.v123.zip'',
                        s3_bundleType = ''zip''\<rparr>,
      cd_description = None\<rparr>"

definition demo_upload :: PutObjectRequest where
  "demo_upload =
     \<lparr>Bucket = ''bkt'', Key = ''p/app.v123.zip'', Body = ''/tmp/app.v123.zip'', ACL = None\<rparr>"

text \<open>The same run where one call fails, or where the service leaves the identifier out.\<close>

definition wait_fails_env :: Env where
  "wait_fails_env = demo_env\<lparr>waitFor := (\<lambda>wp. Some ''timed out'')\<rparr>"

definition no_app_env :: Env where
  "no_app_env = demo_env\<lparr>getApplication := (\<lambda>a. False)\<rparr>"

definition no_id_env :: Env where
  "no_id_env = demo_env\<lparr>createDeployment := (\<lambda>r. Inr None)\<rparr>"

definition upload_fails_env :: Env where
  "upload_fails_env = demo_env\<lparr>upload := (\<lambda>r. Some ''denied'')\<rparr>"

text \<open>The same run with other parameters.\<close>

definition file_params :: TaskParameters where
  "file_params = demo_params\<lparr>revisionBundle := ''/b.zip''\<rparr>"

definition s3_params :: TaskParameters where
  "s3_params = demo_params\<lparr>deploymentRevisionSource := ''s3''\<rparr>"

definition git_params :: TaskParameters where
  "git_params = demo_params\<lparr>deploymentRevisionSource := ''git''\<rparr>"

definition no_prefix_params :: TaskParameters where
  "no_prefix_params = demo_params\<lparr>bundlePrefix := None\<rparr>"

definition empty_prefix_params :: TaskParameters where
  "empty_prefix_params = demo_params\<lparr>bundlePrefix := Some []\<rparr>"

definition dot_key_params :: TaskParameters where
  "dot_key_params = s3_params\<lparr>bundleKey := ''bundle.''\<rparr>"

definition plain_key_params :: TaskParameters where
  "plain_key_params = s3_params\<lparr>bundleKey := ''bundle''\<rparr>"

definition no_output_params :: TaskParameters where
  "no_output_params = demo_params\<lparr>outputVariable := None\<rparr>"

definition upper_key_params :: TaskParameters where
  "upper_key_params = s3_params\<lparr>bundleKey := ''Bundle.TAR''\<rparr>"

definition upper_request :: CreateDeploymentInput where
  "upper_request = demo_request\<lparr>cd_s3Location :=
     \<lparr>s3_bucket = ''bkt'', s3_key = ''Bundle.TAR'', s3_bundleType = ''tar''\<rparr>\<rparr>"

text \<open>
  Timeouts: a fraction of a minute, a fraction whose attempts fall on a half, and a whole
  number of minutes so large that its product with 60 is not a double.
\<close>

definition fraction_params :: TaskParameters where
  "fraction_params = demo_params\<lparr>timeoutInMins := Finite (43 / 16)\<rparr>"

definition half_params :: TaskParameters where
  "half_params = demo_params\<lparr>timeoutInMins := Finite (21 / 8)\<rparr>"

definition huge_params :: TaskParameters where
  "huge_params = demo_params\<lparr>timeoutInMins := Finite 600479950316069\<rparr>"

definition tar_request :: CreateDeploymentInput where
  "tar_request = demo_request\<lparr>cd_s3Location :=
     \<lparr>s3_bucket = ''bkt'', s3_key = ''bundle.tar'', s3_bundleType = ''tar''\<rparr>\<rparr>"

definition plain_request :: CreateDeploymentInput where
  "plain_request = demo_request\<lparr>cd_s3Location :=
     \<lparr>s3_bucket = ''bkt'', s3_key = ''bundle'', s3_bundleType = ''zip''\<rparr>\<rparr>"

definition dot_request :: CreateDeploymentInput where
  "dot_request = demo_request\<lparr>cd_s3Location :=
     \<lparr>s3_bucket = ''bkt'', s3_key = ''bundle.'', s3_bundleType = ''zip''\<rparr>\<rparr>"

section \<open>Properties\<close>

subsection \<open>The stages of a run\<close>

lemma verify_world:
  assumes "verifyResourcesExist p env w = (r, w1)"
  shows "fs w1 = fs w \<and> variables w1 = variables w \<and>
         (\<exists>evs. trace w1 = trace w @ evs \<and> list_all probe_event evs)"
  using assms unfolding verifyResourcesExist_def emit_def Let_def
  by (auto split: if_splits)

lemma uploadBundle_cases [consumes 1, case_names missing zip_failed created_failed created supplied_failed supplied]:
  assumes "uploadBundle p env w = (r, w')"
  obtains
    (missing) "fs w (revisionBundle p) = None" "r = Inl (FsError (revisionBundle p))"
      "trace w' = trace w @ [Stats (revisionBundle p)]" "fs w' = fs w" "variables w' = variables w"
  | (zip_failed) arch msg where "fs w (revisionBundle p) = Some Directory"
      "writeZip env (revisionBundle p) arch = Some msg" "r = Inl (ZipFailure msg)"
      "trace w' = trace w @ [Stats (revisionBundle p), WriteZip (revisionBundle p) arch]"
      "fs w' = fs w" "variables w' = variables w"
  | (created_failed) req msg where "fs w (revisionBundle p) = Some Directory"
      "upload env req = Some msg" "r = Inl (SdkError msg)"
      "trace w' = trace w @ [Stats (revisionBundle p), WriteZip (revisionBundle p) (Body req), Upload req]"
      "fs w' = (fs w)(Body req \<mapsto> File)" "variables w' = variables w"
      "Key req = bundleObjectKey (platform env) (bundlePrefix p) (Body req)"
  | (created) req where "fs w (revisionBundle p) = Some Directory"
      "upload env req = None" "r = Inr (Key req)"
      "trace w' = trace w @ [Stats (revisionBundle p), WriteZip (revisionBundle p) (Body req),
                            Upload req, UnlinkSync (Body req)]"
      "fs w' = (fs w)(Body req := None)" "variables w' = variables w"
      "Key req = bundleObjectKey (platform env) (bundlePrefix p) (Body req)"
  | (supplied_failed) req msg where "fs w (revisionBundle p) = Some File"
      "upload env req = Some msg" "r = Inl (SdkError msg)"
      "trace w' = trace w @ [Stats (revisionBundle p), Upload req]"
      "Body req = revisionBundle p" "fs w' = fs w" "variables w' = variables w"
      "Key req = bundleObjectKey (platform env) (bundlePrefix p) (Body req)"
  | (supplied) req where "fs w (revisionBundle p) = Some File"
      "upload env req = None" "r = Inr (Key req)"
      "trace w' = trace w @ [Stats (revisionBundle p), Upload req]"
      "Body req = revisionBundle p" "fs w' = fs w" "variables w' = variables w"
      "Key req = bundleObjectKey (platform env) (bundlePrefix p) (Body req)"
proof (cases "fs w (revisionBundle p)")
  case None
  with assms have "r = Inl (FsError (revisionBundle p))" "w' = emit (Stats (revisionBundle p)) w"
    by (auto simp: uploadBundle_def emit_def Let_def)
  with None show ?thesis by (intro missing) (simp_all add: emit_def)
next
  case (Some nd)
  show ?thesis
  proof (cases nd)
    case File
    define req where "req = \<lparr>Bucket = bucketName p,
        Key = bundleObjectKey (platform env) (bundlePrefix p) (revisionBundle p),
        Body = revisionBundle p,
        ACL = (if truthy (filesAcl p) \<and> filesAcl p \<noteq> Some ''none'' then filesAcl p else None)\<rparr>"
    show ?thesis
    proof (cases "upload env req")
      case None
      with assms Some File have "r = Inr (Key req)" "w' = emit (Upload req) (emit (Stats (revisionBundle p)) w)"
        by (auto simp: uploadBundle_def emit_def Let_def req_def)
      with Some File None show ?thesis
        by (intro supplied [of req]) (simp_all add: emit_def req_def)
    next
      case (Some msg)
      with assms \<open>fs w (revisionBundle p) = Some nd\<close> File
      have "r = Inl (SdkError msg)" "w' = emit (Upload req) (emit (Stats (revisionBundle p)) w)"
        by (auto simp: uploadBundle_def emit_def Let_def req_def)
      with \<open>fs w (revisionBundle p) = Some nd\<close> File Some show ?thesis
        by (intro supplied_failed [of req msg]) (simp_all add: emit_def req_def)
    qed
  next
    case Directory
    define arch where "arch = pathJoin env (tempLocation env)
        (applicationName p @ (''.v'' @ decimal (now env)) @ ''.zip'')"
    define req where "req = \<lparr>Bucket = bucketName p,
        Key = bundleObjectKey (platform env) (bundlePrefix p) arch,
        Body = arch,
        ACL = (if truthy (filesAcl p) \<and> filesAcl p \<noteq> Some ''none'' then filesAcl p else None)\<rparr>"
    show ?thesis
    proof (cases "writeZip env (revisionBundle p) arch")
      case (Some msg)
      with assms \<open>fs w (revisionBundle p) = Some nd\<close> Directory
      have "r = Inl (ZipFailure msg)"
           "w' = emit (WriteZip (revisionBundle p) arch) (emit (Stats (revisionBundle p)) w)"
        by (auto simp: uploadBundle_def createDeploymentArchive_def emit_def Let_def arch_def)
      with \<open>fs w (revisionBundle p) = Some nd\<close> Directory Some show ?thesis
        by (intro zip_failed [of arch msg]) (simp_all add: emit_def)
    next
      case None
      note zip_ok = None
      show ?thesis
      proof (cases "upload env req")
        case (Some msg)
        with assms \<open>fs w (revisionBundle p) = Some nd\<close> Directory zip_ok
        have "r = Inl (SdkError msg)"
           "w' = emit (Upload req) ((emit (WriteZip (revisionBundle p) arch) (emit (Stats (revisionBundle p)) w))
                   \<lparr>fs := (fs w)(arch \<mapsto> File)\<rparr>)"
          by (auto simp: uploadBundle_def createDeploymentArchive_def emit_def Let_def arch_def req_def)
        with \<open>fs w (revisionBundle p) = Some nd\<close> Directory Some show ?thesis
          by (intro created_failed [of req msg]) (simp_all add: emit_def req_def)
      next
        case None
        with assms \<open>fs w (revisionBundle p) = Some nd\<close> Directory zip_ok
        have "r = Inr (Key req)"
           "w' = (emit (UnlinkSync arch) (emit (Upload req)
                   ((emit (WriteZip (revisionBundle p) arch) (emit (Stats (revisionBundle p)) w))
                   \<lparr>fs := (fs w)(arch \<mapsto> File)\<rparr>)))\<lparr>fs := (fs w)(arch := None)\<rparr>"
          by (auto simp: uploadBundle_def createDeploymentArchive_def unlinkSync_def emit_def Let_def arch_def req_def)
        with \<open>fs w (revisionBundle p) = Some nd\<close> Directory None show ?thesis
          by (intro created [of req]) (simp_all add: emit_def req_def)
      qed
    qed
  qed
qed


lemma resolve_world:
  assumes "resolveBundleKey p env w = (r, w')"
  shows "variables w' = variables w \<and>
         (\<exists>evs. trace w' = trace w @ evs \<and> list_all bundle_event evs)"
proof (cases "deploymentRevisionSource p = revisionSourceFromWorkspace")
  case True
  with assms have "uploadBundle p env w = (r, w')" by (simp add: resolveBundleKey_def)
  then show ?thesis by (cases rule: uploadBundle_cases) simp_all
next
  case False
  with assms have "w' = w" by (auto simp: resolveBundleKey_def split: if_splits)
  then show ?thesis by simp
qed

lemma deployRevision_cases [consumes 1, case_names submit]:
  assumes "deployRevision p env key w = (r, w')"
  obtains req where "w' = emit (CreateDeployment req) w"
    "s3_key (cd_s3Location req) = key"
    "s3_bucket (cd_s3Location req) = bucketName p"
    "s3_bundleType (cd_s3Location req) = archiveTypeOf env key"
    "r = (case createDeployment env req of
            Inl msg \<Rightarrow> Inl (SdkError msg)
          | Inr None \<Rightarrow> Inr []
          | Inr (Some d) \<Rightarrow> Inr d)"
proof -
  define req where "req = \<lparr>cd_applicationName = applicationName p,
                     cd_deploymentGroupName = deploymentGroupName p,
                     cd_fileExistsBehavior = fileExistsBehavior p,
                     cd_ignoreApplicationStopFailures = ignoreApplicationStopFailures p,
                     cd_updateOutdatedInstancesOnly = updateOutdatedInstancesOnly p,
                     cd_revisionType = ''S3'',
                     cd_s3Location = \<lparr>s3_bucket = bucketName p, s3_key = key,
                                       s3_bundleType = archiveTypeOf env key\<rparr>,
                     cd_description = (if truthy (description p) then description p else None)\<rparr>"
  from assms have "w' = emit (CreateDeployment req) w"
    by (auto simp: deployRevision_def Let_def req_def split: sum.splits if_splits)
  moreover from assms have "r = (case createDeployment env req of
            Inl msg \<Rightarrow> Inl (SdkError msg)
          | Inr None \<Rightarrow> Inr []
          | Inr (Some d) \<Rightarrow> Inr d)"
    by (auto simp: deployRevision_def Let_def req_def split: sum.splits if_splits option.splits)
  ultimately show ?thesis
    by (intro that [of req]) (simp_all add: req_def)
qed

lemma execute_cases [case_names verify_failed resolve_failed deploy_failed waited]:
  obtains
    (verify_failed) e evsV where
      "verifyResourcesExist p env w = (Inl e, snd (execute p env w))"
      "fst (execute p env w) = Inl e"
      "calls p env w = evsV" "list_all probe_event evsV"
      "fs (snd (execute p env w)) = fs w"
      "variables (snd (execute p env w)) = variables w"
  | (resolve_failed) w1 e evsV evsR where
      "verifyResourcesExist p env w = (Inr (), w1)"
      "resolveBundleKey p env w1 = (Inl e, snd (execute p env w))"
      "fst (execute p env w) = Inl e"
      "trace w1 = trace w @ evsV" "fs w1 = fs w"
      "trace (snd (execute p env w)) = trace w1 @ evsR"
      "calls p env w = evsV @ evsR" "list_all probe_event evsV" "list_all bundle_event evsR"
      "variables (snd (execute p env w)) = variables w"
  | (deploy_failed) w1 w2 key req msg evsV evsR where
      "verifyResourcesExist p env w = (Inr (), w1)"
      "resolveBundleKey p env w1 = (Inr key, w2)"
      "trace w1 = trace w @ evsV" "fs w1 = fs w" "trace w2 = trace w1 @ evsR"
      "s3_key (cd_s3Location req) = key"
      "s3_bucket (cd_s3Location req) = bucketName p"
      "s3_bundleType (cd_s3Location req) = archiveTypeOf env key"
      "createDeployment env req = Inl msg"
      "fst (execute p env w) = Inl (SdkError msg)"
      "calls p env w = evsV @ evsR @ [CreateDeployment req]"
      "list_all probe_event evsV" "list_all bundle_event evsR"
      "fs (snd (execute p env w)) = fs w2"
      "variables (snd (execute p env w)) = variables w"
  | (waited) w1 w2 key req resp d wp pub evsV evsR where
      "verifyResourcesExist p env w = (Inr (), w1)"
      "resolveBundleKey p env w1 = (Inr key, w2)"
      "trace w1 = trace w @ evsV" "fs w1 = fs w" "trace w2 = trace w1 @ evsR"
      "s3_key (cd_s3Location req) = key"
      "s3_bucket (cd_s3Location req) = bucketName p"
      "s3_bundleType (cd_s3Location req) = archiveTypeOf env key"
      "createDeployment env req = Inr resp"
      "d = (case resp of None \<Rightarrow> [] | Some i \<Rightarrow> i)"
      "wp = setWaiterParams d (timeoutInMins p)"
      "pub = (case outputVariable p of
                Some name \<Rightarrow> if name \<noteq> [] then [SetVariable name d] else []
              | None \<Rightarrow> [])"
      "fst (execute p env w) =
         (case waitFor env wp of
            Some msg \<Rightarrow> Inl (DeploymentFailed (applicationName p) msg)
          | None \<Rightarrow> Inr ())"
      "calls p env w = evsV @ evsR @ [CreateDeployment req] @ pub @ [WaitFor wp]"
      "list_all probe_event evsV" "list_all bundle_event evsR"
      "fs (snd (execute p env w)) = fs w2"
      "variables (snd (execute p env w)) =
         (case outputVariable p of
            Some name \<Rightarrow> if name \<noteq> [] then (variables w)(name \<mapsto> d) else variables w
          | None \<Rightarrow> variables w)"
proof -
  obtain rv w1 where v: "verifyResourcesExist p env w = (rv, w1)" by (cases "verifyResourcesExist p env w")
  from verify_world [OF v] obtain evsV where
    w1: "fs w1 = fs w" "variables w1 = variables w" "trace w1 = trace w @ evsV"
        "list_all probe_event evsV" by blast
  show ?thesis
  proof (cases rv)
    case (Inl e)
    with v have ex: "execute p env w = (Inl e, w1)" by (simp add: execute_def)
    show ?thesis
      by (rule verify_failed [of e evsV]) (simp_all add: ex v Inl w1 calls_def)
  next
    case (Inr u)
    with v have v': "verifyResourcesExist p env w = (Inr (), w1)" by simp
    obtain rr w2 where r: "resolveBundleKey p env w1 = (rr, w2)" by (cases "resolveBundleKey p env w1")
    from resolve_world [OF r] obtain evsR where
      w2: "variables w2 = variables w1" "trace w2 = trace w1 @ evsR"
          "list_all bundle_event evsR" by blast
    show ?thesis
    proof (cases rr)
      case (Inl e)
      with v' r have ex: "execute p env w = (Inl e, w2)" by (simp add: execute_def)
      show ?thesis
        by (rule resolve_failed [of w1 e evsV evsR]) (simp_all add: ex v' r Inl w1 w2 calls_def)
    next
      case (Inr key)
      with r have r': "resolveBundleKey p env w1 = (Inr key, w2)" by simp
      obtain rd w3 where d: "deployRevision p env key w2 = (rd, w3)" by (cases "deployRevision p env key w2")
      from d show ?thesis
      proof (cases rule: deployRevision_cases)
        case (submit req)
        show ?thesis
        proof (cases "createDeployment env req")
          case (Inl msg)
          with submit have rd: "rd = Inl (SdkError msg)" by simp
          with v' r' d have ex: "execute p env w = (Inl (SdkError msg), w3)"
            by (simp add: execute_def)
          show ?thesis
            by (rule deploy_failed [of w1 key w2 evsV evsR req msg])
               (simp_all add: ex v' r' Inl w1 w2 submit calls_def emit_def)
        next
          case (Inr resp)
          define dd where "dd = (case resp of None \<Rightarrow> [] | Some i \<Rightarrow> i)"
          from Inr submit have rd: "rd = Inr dd" by (simp add: dd_def split: option.splits)
          with v' r' d have ex: "execute p env w =
             waitForDeploymentCompletion env (applicationName p) dd (timeoutInMins p)
               (case outputVariable p of
                  Some name \<Rightarrow> if name \<noteq> [] then setVariable name dd w3 else w3
                | None \<Rightarrow> w3)"
            by (simp add: execute_def)
          show ?thesis
            by (rule waited [of w1 key w2 evsV evsR req resp dd "setWaiterParams dd (timeoutInMins p)"
                  "case outputVariable p of
                     Some name \<Rightarrow> if name \<noteq> [] then [SetVariable name dd] else []
                   | None \<Rightarrow> []"])
               (simp_all add: ex v' r' Inr w1 w2 submit calls_def emit_def dd_def
                  waitForDeploymentCompletion_def setVariable_def Let_def
                  split: option.splits)
        qed
      qed
    qed
  qed
qed

lemma probe_eventD: "list_all probe_event evs \<Longrightarrow> e \<in> set evs \<Longrightarrow> probe_event e"
  by (simp add: list_all_iff)

lemma bundle_eventD: "list_all bundle_event evs \<Longrightarrow> e \<in> set evs \<Longrightarrow> bundle_event e"
  by (simp add: list_all_iff)

subsection \<open>What a call in the trace tells about the run\<close>

lemma wait_call:
  assumes "WaitFor wp \<in> set (calls p env w)"
  shows "\<exists>pre d. calls p env w =
            pre @ (case outputVariable p of
                     Some name \<Rightarrow> if name \<noteq> [] then [SetVariable name d] else []
                   | None \<Rightarrow> []) @ [WaitFor wp] \<and>
            wp = setWaiterParams d (timeoutInMins p) \<and>
            variables (snd (execute p env w)) =
              (case outputVariable p of
                 Some name \<Rightarrow> if name \<noteq> [] then (variables w)(name \<mapsto> d) else variables w
               | None \<Rightarrow> variables w) \<and>
            fst (execute p env w) =
              (case waitFor env wp of
                 Some msg \<Rightarrow> Inl (DeploymentFailed (applicationName p) msg)
               | None \<Rightarrow> Inr ())"
proof (cases p env w rule: execute_cases)
  case (verify_failed e evsV)
  with assms show ?thesis by (auto dest: probe_eventD)
next
  case (resolve_failed w1 e evsV evsR)
  with assms show ?thesis by (auto dest: probe_eventD bundle_eventD)
next
  case (deploy_failed w1 w2 key req msg evsV evsR)
  with assms show ?thesis by (auto dest: probe_eventD bundle_eventD)
next
  case (waited w1 w2 key req resp d wp' pub evsV evsR)
  from assms waited have "wp = wp'"
    by (auto dest: probe_eventD bundle_eventD split: option.splits if_splits)
  with waited show ?thesis
    by (intro exI [of _ "evsV @ evsR @ [CreateDeployment req]"] exI [of _ d]) simp
qed

lemma sources_distinct: "revisionSourceFromWorkspace \<noteq> revisionSourceFromS3"
  by (simp add: revisionSourceFromWorkspace_def revisionSourceFromS3_def)

lemma resolve_cases [consumes 2, case_names workspace s3 unknown]:
  assumes "resolveBundleKey p env w1 = (r, w2)" "trace w2 = trace w1 @ evsR"
  obtains
    (workspace) "deploymentRevisionSource p = revisionSourceFromWorkspace"
      "uploadBundle p env w1 = (r, w2)"
  | (s3) "deploymentRevisionSource p = revisionSourceFromS3"
      "r = Inr (bundleKey p)" "w2 = w1" "evsR = []"
  | (unknown) "deploymentRevisionSource p \<noteq> revisionSourceFromWorkspace"
      "deploymentRevisionSource p \<noteq> revisionSourceFromS3"
      "r = Inl (UnknownRevisionSource (deploymentRevisionSource p))" "w2 = w1" "evsR = []"
  using assms sources_distinct
  by (auto simp: resolveBundleKey_def split: if_splits)

lemma upload_in_bundle:
  assumes "uploadBundle p env w1 = (r, w2)" "trace w2 = trace w1 @ evsR" "Upload req \<in> set evsR"
  shows "Key req = bundleObjectKey (platform env) (bundlePrefix p) (Body req) \<and>
         (case upload env req of
            Some msg \<Rightarrow> r = Inl (SdkError msg) \<and> (\<forall>f. UnlinkSync f \<notin> set evsR) \<and>
               fs w2 (Body req) \<noteq> None \<and> (\<exists>pre. evsR = pre @ [Upload req])
          | None \<Rightarrow> r = Inr (Key req) \<and>
              (if fs w1 (revisionBundle p) = Some Directory
               then (\<exists>pre. evsR = pre @ [WriteZip (revisionBundle p) (Body req), Upload req, UnlinkSync (Body req)]) \<and>
                    fs w2 (Body req) = None
               else fs w1 (revisionBundle p) = Some File \<and> Body req = revisionBundle p \<and>
                    (\<forall>f. UnlinkSync f \<notin> set evsR) \<and> fs w2 = fs w1))"
  using assms(1)
proof (cases rule: uploadBundle_cases)
  case missing
  with assms show ?thesis by auto
next
  case (zip_failed arch msg)
  with assms show ?thesis by auto
next
  case (created_failed req' msg)
  with assms have "req = req'" by auto
  with created_failed assms(2) show ?thesis by auto
next
  case (created req')
  with assms have "req = req'" by auto
  with created assms(2) show ?thesis by auto
next
  case (supplied_failed req' msg)
  with assms have "req = req'" by auto
  with supplied_failed assms(2) show ?thesis by auto
next
  case (supplied req')
  with assms have "req = req'" by auto
  with supplied assms(2) show ?thesis by auto
qed

lemma upload_call:
  assumes "Upload req \<in> set (calls p env w)"
  shows "deploymentRevisionSource p = revisionSourceFromWorkspace \<and>
         Key req = bundleObjectKey (platform env) (bundlePrefix p) (Body req) \<and>
         (case upload env req of
            Some msg \<Rightarrow> fst (execute p env w) = Inl (SdkError msg) \<and>
               (\<forall>f. UnlinkSync f \<notin> set (calls p env w)) \<and>
               fs (snd (execute p env w)) (Body req) \<noteq> None \<and>
               (\<exists>pre. calls p env w = pre @ [Upload req])
          | None \<Rightarrow>
              (\<forall>r. CreateDeployment r \<in> set (calls p env w) \<longrightarrow> s3_key (cd_s3Location r) = Key req) \<and>
              (if fs w (revisionBundle p) = Some Directory
               then (\<exists>pre post. calls p env w = pre @ [WriteZip (revisionBundle p) (Body req), Upload req, UnlinkSync (Body req)] @ post) \<and>
                    fs (snd (execute p env w)) (Body req) = None
               else fs w (revisionBundle p) = Some File \<and> Body req = revisionBundle p \<and>
                    (\<forall>f. UnlinkSync f \<notin> set (calls p env w)) \<and>
                    fs (snd (execute p env w)) = fs w))"
proof (cases p env w rule: execute_cases)
  case (verify_failed e evsV)
  with assms show ?thesis by (auto dest: probe_eventD)
next
  case (resolve_failed w1 e evsV evsR)
  from assms resolve_failed have in_R: "Upload req \<in> set evsR" by (auto dest: probe_eventD)
  from resolve_failed have res: "resolveBundleKey p env w1 = (Inl e, snd (execute p env w))"
    and tr: "trace (snd (execute p env w)) = trace w1 @ evsR" by simp_all
  from res tr show ?thesis
  proof (cases rule: resolve_cases)
    case workspace
    from upload_in_bundle [OF workspace(2) tr in_R] workspace(1) resolve_failed
    show ?thesis
      by (auto split: option.splits if_splits dest: probe_eventD)
  next
    case s3
    with in_R show ?thesis by simp
  next
    case unknown
    with in_R show ?thesis by simp
  qed
next
  case (deploy_failed w1 w2 key req' msg evsV evsR)
  from assms deploy_failed have in_R: "Upload req \<in> set evsR" by (auto dest: probe_eventD)
  from deploy_failed have res: "resolveBundleKey p env w1 = (Inr key, w2)"
    and tr: "trace w2 = trace w1 @ evsR" and fs1: "fs w1 = fs w"
    and fin: "fs (snd (execute p env w)) = fs w2"
    and cs: "calls p env w = evsV @ evsR @ [CreateDeployment req']"
    and pv: "list_all probe_event evsV" and bv: "list_all bundle_event evsR"
    and rk: "s3_key (cd_s3Location req') = key" by simp_all
  from res tr show ?thesis
  proof (cases rule: resolve_cases)
    case workspace
    from upload_in_bundle [OF workspace(2) tr in_R] workspace(1)
    have k: "Key req = bundleObjectKey (platform env) (bundlePrefix p) (Body req)"
      and u: "upload env req = None" and key: "key = Key req"
      and rest: "if fs w1 (revisionBundle p) = Some Directory
               then (\<exists>pre. evsR = pre @ [WriteZip (revisionBundle p) (Body req), Upload req, UnlinkSync (Body req)]) \<and>
                    fs w2 (Body req) = None
               else fs w1 (revisionBundle p) = Some File \<and> Body req = revisionBundle p \<and>
                    (\<forall>f. UnlinkSync f \<notin> set evsR) \<and> fs w2 = fs w1"
      by (auto split: option.splits)
    have cd: "\<forall>r. CreateDeployment r \<in> set (calls p env w) \<longrightarrow> s3_key (cd_s3Location r) = Key req"
      using cs pv bv rk key by (auto dest: probe_eventD bundle_eventD)
    show ?thesis
    proof (cases "fs w (revisionBundle p) = Some Directory")
      case True
      with rest fs1 obtain pre where pre: "evsR = pre @ [WriteZip (revisionBundle p) (Body req), Upload req, UnlinkSync (Body req)]"
        and gone: "fs w2 (Body req) = None" by auto
      have "calls p env w = (evsV @ pre) @ [WriteZip (revisionBundle p) (Body req), Upload req, UnlinkSync (Body req)] @ [CreateDeployment req']"
        using cs pre by simp
      then have "\<exists>pre post. calls p env w = pre @ [WriteZip (revisionBundle p) (Body req), Upload req, UnlinkSync (Body req)] @ post"
        by blast
      with True workspace(1) k u cd gone fin show ?thesis by simp
    next
      case False
      with rest fs1 have "fs w (revisionBundle p) = Some File" "Body req = revisionBundle p"
        "\<forall>f. UnlinkSync f \<notin> set evsR" "fs w2 = fs w" by auto
      moreover have "\<forall>f. UnlinkSync f \<notin> set (evsV @ [CreateDeployment req'])"
        using pv by (auto dest: probe_eventD)
      ultimately show ?thesis
        using False workspace(1) k u cd cs fin by auto
    qed
  next
    case s3
    with in_R show ?thesis by simp
  next
    case unknown
    with in_R show ?thesis by simp
  qed
next
  case (waited w1 w2 key req' resp d wp pub evsV evsR)
  from waited have res: "resolveBundleKey p env w1 = (Inr key, w2)"
    and tr: "trace w2 = trace w1 @ evsR" and fs1: "fs w1 = fs w"
    and fin: "fs (snd (execute p env w)) = fs w2"
    and cs: "calls p env w = evsV @ evsR @ [CreateDeployment req'] @ pub @ [WaitFor wp]"
    and pv: "list_all probe_event evsV" and bv: "list_all bundle_event evsR"
    and rk: "s3_key (cd_s3Location req') = key"
    and pb: "pub = (case outputVariable p of
                Some name \<Rightarrow> if name \<noteq> [] then [SetVariable name d] else []
              | None \<Rightarrow> [])" by simp_all
  have pub: "\<forall>e \<in> set pub. \<exists>n v. e = SetVariable n v"
    using pb by (auto split: option.splits)
  from assms cs pv pub have in_R: "Upload req \<in> set evsR" by (auto dest: probe_eventD)
  from res tr show ?thesis
  proof (cases rule: resolve_cases)
    case workspace
    from upload_in_bundle [OF workspace(2) tr in_R] workspace(1)
    have k: "Key req = bundleObjectKey (platform env) (bundlePrefix p) (Body req)"
      and u: "upload env req = None" and key: "key = Key req"
      and rest: "if fs w1 (revisionBundle p) = Some Directory
               then (\<exists>pre. evsR = pre @ [WriteZip (revisionBundle p) (Body req), Upload req, UnlinkSync (Body req)]) \<and>
                    fs w2 (Body req) = None
               else fs w1 (revisionBundle p) = Some File \<and> Body req = revisionBundle p \<and>
                    (\<forall>f. UnlinkSync f \<notin> set evsR) \<and> fs w2 = fs w1"
      by (auto split: option.splits)
    have cd: "\<forall>r. CreateDeployment r \<in> set (calls p env w) \<longrightarrow> s3_key (cd_s3Location r) = Key req"
      using cs pv bv rk key pub by (auto dest: probe_eventD bundle_eventD)
    show ?thesis
    proof (cases "fs w (revisionBundle p) = Some Directory")
      case True
      with rest fs1 obtain pre where pre: "evsR = pre @ [WriteZip (revisionBundle p) (Body req), Upload req, UnlinkSync (Body req)]"
        and gone: "fs w2 (Body req) = None" by auto
      have "calls p env w = (evsV @ pre) @ [WriteZip (revisionBundle p) (Body req), Upload req, UnlinkSync (Body req)] @
               ([CreateDeployment req'] @ pub @ [WaitFor wp])"
        using cs pre by simp
      then have "\<exists>pre post. calls p env w = pre @ [WriteZip (revisionBundle p) (Body req), Upload req, UnlinkSync (Body req)] @ post"
        by blast
      with True workspace(1) k u cd gone fin show ?thesis by simp
    next
      case False
      with rest fs1 have "fs w (revisionBundle p) = Some File" "Body req = revisionBundle p"
        "\<forall>f. UnlinkSync f \<notin> set evsR" "fs w2 = fs w" by auto
      moreover have "\<forall>f. UnlinkSync f \<notin> set (evsV @ [CreateDeployment req'] @ pub @ [WaitFor wp])"
        using pv pub by (auto dest: probe_eventD)
      ultimately show ?thesis
        using False workspace(1) k u cd cs fin by auto
    qed
  next
    case s3
    with in_R show ?thesis by simp
  next
    case unknown
    with in_R show ?thesis by simp
  qed
qed

lemma resolved_calls:
  assumes "resolveBundleKey p env w1 = (r, w2)" "trace w2 = trace w1 @ evsR"
  shows "(deploymentRevisionSource p = revisionSourceFromS3 \<longrightarrow>
            evsR = [] \<and> r = Inr (bundleKey p) \<and> fs w2 = fs w1) \<and>
         (deploymentRevisionSource p \<noteq> revisionSourceFromS3 \<and>
          deploymentRevisionSource p \<noteq> revisionSourceFromWorkspace \<longrightarrow>
            evsR = [] \<and> r = Inl (UnknownRevisionSource (deploymentRevisionSource p)) \<and>
            fs w2 = fs w1) \<and>
         (deploymentRevisionSource p = revisionSourceFromWorkspace \<longrightarrow>
            Stats (revisionBundle p) \<in> set evsR \<and>
            (\<forall>key. r = Inr key \<longrightarrow>
               (\<exists>up. Upload up \<in> set evsR \<and> upload env up = None \<and> key = Key up)))"
  using assms
proof (cases rule: resolve_cases)
  case workspace
  from workspace(2) assms(2) sources_distinct workspace(1) show ?thesis
    by (cases rule: uploadBundle_cases) auto
next
  case s3
  with sources_distinct show ?thesis by auto
next
  case unknown
  then show ?thesis by auto
qed

lemma submit_call:
  assumes "CreateDeployment req \<in> set (calls p env w)"
  shows "s3_bucket (cd_s3Location req) = bucketName p \<and>
         s3_bundleType (cd_s3Location req) =
           archiveTypeOf env (s3_key (cd_s3Location req)) \<and>
         (case createDeployment env req of
            Inl msg \<Rightarrow> fst (execute p env w) = Inl (SdkError msg) \<and>
              (\<exists>pre. calls p env w = pre @ [CreateDeployment req])
          | Inr resp \<Rightarrow>
              (\<exists>pre pub. calls p env w = pre @ [CreateDeployment req] @ pub @
                 [WaitFor (setWaiterParams (case resp of None \<Rightarrow> [] | Some i \<Rightarrow> i)
                    (timeoutInMins p))] \<and>
                 (\<forall>e \<in> set pub. \<exists>n. e = SetVariable n (case resp of None \<Rightarrow> [] | Some i \<Rightarrow> i))))"
proof (cases p env w rule: execute_cases)
  case (verify_failed e evsV)
  with assms show ?thesis by (auto dest: probe_eventD)
next
  case (resolve_failed w1 e evsV evsR)
  with assms show ?thesis by (auto dest: probe_eventD bundle_eventD)
next
  case (deploy_failed w1 w2 key req' msg evsV evsR)
  with assms have "req = req'" by (auto dest: probe_eventD bundle_eventD)
  with deploy_failed show ?thesis by auto
next
  case (waited w1 w2 key req' resp d wp pub evsV evsR)
  from waited have pb: "pub = (case outputVariable p of
                Some name \<Rightarrow> if name \<noteq> [] then [SetVariable name d] else []
              | None \<Rightarrow> [])" by simp
  have pub: "\<forall>e \<in> set pub. \<exists>n. e = SetVariable n d"
    using pb by (auto split: option.splits)
  from assms waited pub have "req = req'" by (auto dest: probe_eventD bundle_eventD)
  have "calls p env w = (evsV @ evsR) @ [CreateDeployment req] @ pub @
          [WaitFor (setWaiterParams d (timeoutInMins p))]"
    using waited \<open>req = req'\<close> by simp
  with pub have "\<exists>pre pub. calls p env w = pre @ [CreateDeployment req] @ pub @
          [WaitFor (setWaiterParams d (timeoutInMins p))] \<and>
          (\<forall>e \<in> set pub. \<exists>n. e = SetVariable n d)"
    by blast
  with waited \<open>req = req'\<close> show ?thesis by simp
qed

lemma deploy_eventD: "list_all deploy_event evs \<Longrightarrow> e \<in> set evs \<Longrightarrow> deploy_event e"
  by (simp add: list_all_iff)

lemma verify_probes:
  "verifyResourcesExist p env w = (r, w1) \<Longrightarrow> (r = Inr ()) = probesSucceed p env"
  by (auto simp: verifyResourcesExist_def probesSucceed_def Let_def split: if_splits)

lemma run_parts [case_names stopped resolved]:
  obtains
    (stopped) e where "\<not> probesSucceed p env" "fst (execute p env w) = Inl e"
      "list_all probe_event (calls p env w)" "fs (snd (execute p env w)) = fs w"
  | (resolved) w1 r w2 evsV evsR rest where "probesSucceed p env"
      "resolveBundleKey p env w1 = (r, w2)" "fs w1 = fs w" "trace w2 = trace w1 @ evsR"
      "calls p env w = evsV @ evsR @ rest"
      "list_all probe_event evsV" "list_all bundle_event evsR" "list_all deploy_event rest"
      "fs (snd (execute p env w)) = fs w2"
      "case r of
         Inl e \<Rightarrow> fst (execute p env w) = Inl e \<and> rest = []
       | Inr key \<Rightarrow> (\<exists>req rest'. rest = CreateDeployment req # rest' \<and>
            s3_key (cd_s3Location req) = key \<and> s3_bucket (cd_s3Location req) = bucketName p \<and>
            (\<forall>r'. CreateDeployment r' \<in> set rest \<longrightarrow> r' = req))"
proof (cases p env w rule: execute_cases)
  case (verify_failed e evsV)
  from verify_probes [OF verify_failed(1)] have "\<not> probesSucceed p env" by simp
  with verify_failed show ?thesis by (intro stopped [of e]) simp_all
next
  case (resolve_failed w1 e evsV evsR)
  from verify_probes [of p env w "Inr ()" w1] resolve_failed have "probesSucceed p env" by simp
  with resolve_failed show ?thesis
    by (intro resolved [of w1 "Inl e" "snd (execute p env w)" evsR evsV "[]"]) simp_all
next
  case (deploy_failed w1 w2 key req msg evsV evsR)
  from verify_probes [of p env w "Inr ()" w1] deploy_failed have "probesSucceed p env" by simp
  with deploy_failed show ?thesis
    by (intro resolved [of w1 "Inr key" w2 evsR evsV "[CreateDeployment req]"]) simp_all
next
  case (waited w1 w2 key req resp d wp pub evsV evsR)
  from verify_probes [of p env w "Inr ()" w1] waited have ok: "probesSucceed p env" by simp
  from waited have pb: "pub = (case outputVariable p of
                Some name \<Rightarrow> if name \<noteq> [] then [SetVariable name d] else []
              | None \<Rightarrow> [])" by simp
  have pub: "\<forall>e \<in> set pub. \<exists>n. e = SetVariable n d"
    using pb by (auto split: option.splits)
  then have pd: "list_all deploy_event (CreateDeployment req # pub @ [WaitFor wp])"
    by (auto simp: list_all_iff)
  have one: "\<forall>r'. CreateDeployment r' \<in> set (CreateDeployment req # pub @ [WaitFor wp]) \<longrightarrow> r' = req"
    using pub by auto
  from waited have cs: "calls p env w = evsV @ evsR @ (CreateDeployment req # pub @ [WaitFor wp])"
    by simp
  from ok waited(2,4,5,6,7,15,16,17) cs pd one show ?thesis
    by (intro resolved [of w1 "Inr key" w2 evsR evsV "CreateDeployment req # pub @ [WaitFor wp]"])
       simp_all
qed

lemma resolved_keeps_files:
  assumes "resolveBundleKey p env w1 = (r, w2)" "trace w2 = trace w1 @ evsR"
    "deploymentRevisionSource p \<noteq> revisionSourceFromWorkspace \<or>
     fs w1 (revisionBundle p) \<noteq> Some Directory"
  shows "fs w2 = fs w1 \<and> (\<forall>f. UnlinkSync f \<notin> set evsR) \<and> (\<forall>d a. WriteZip d a \<notin> set evsR)"
  using assms(1,2)
proof (cases rule: resolve_cases)
  case workspace
  from workspace(2) assms(2,3) workspace(1) show ?thesis
    by (cases rule: uploadBundle_cases) auto
next
  case s3
  then show ?thesis by simp
next
  case unknown
  then show ?thesis by simp
qed


lemma kept_when_not_directory:
  assumes "fs w (revisionBundle p) \<noteq> Some Directory \<or>
           deploymentRevisionSource p \<noteq> revisionSourceFromWorkspace"
  shows "(\<forall>f. UnlinkSync f \<notin> set (calls p env w)) \<and>
         (\<forall>d a. WriteZip d a \<notin> set (calls p env w)) \<and>
         fs (snd (execute p env w)) = fs w"
proof (cases p env w rule: run_parts)
  case (stopped e)
  then show ?thesis by (auto dest: probe_eventD)
next
  case (resolved w1 r w2 evsV evsR rest)
  from resolved assms have "deploymentRevisionSource p \<noteq> revisionSourceFromWorkspace \<or>
     fs w1 (revisionBundle p) \<noteq> Some Directory" by auto
  from resolved_keeps_files [OF resolved(2) resolved(4) this] resolved
  show ?thesis by (auto dest: probe_eventD deploy_eventD)
qed

lemma upload_body:
  assumes "Upload req \<in> set (calls p env w)" "fs w (revisionBundle p) = Some File"
  shows "Body req = revisionBundle p"
proof (cases p env w rule: run_parts)
  case (stopped e)
  with assms show ?thesis by (auto dest: probe_eventD)
next
  case (resolved w1 r w2 evsV evsR rest)
  with assms have in_R: "Upload req \<in> set evsR" by (auto dest: probe_eventD deploy_eventD)
  from resolved have f1: "fs w1 = fs w" by simp
  from resolved(2,4) show ?thesis
  proof (cases rule: resolve_cases)
    case workspace
    from workspace(2) resolved(4) in_R assms(2) f1 show ?thesis
      by (cases rule: uploadBundle_cases) auto
  next
    case s3
    with in_R show ?thesis by simp
  next
    case unknown
    with in_R show ?thesis by simp
  qed
qed

lemma bundleObjectKey_simps:
  "bundleObjectKey pf None a = basename pf a"
  "bundleObjectKey pf (Some []) a = basename pf a"
  "pre \<noteq> [] \<Longrightarrow> bundleObjectKey pf (Some pre) a = pre @ ''/'' @ basename pf a"
  by (simp_all add: bundleObjectKey_def)

lemma empty_prefix_same_run:
  assumes "bundlePrefix p = Some []"
  shows "execute (p\<lparr>bundlePrefix := None\<rparr>) env w = execute p env w"
proof -
  have u: "uploadBundle (p\<lparr>bundlePrefix := None\<rparr>) env w' = uploadBundle p env w'" for w'
    using assms
    by (simp add: uploadBundle_def bundleObjectKey_def Let_def split del: if_split
          cong: option.case_cong prod.case_cong sum.case_cong if_cong)
  have r: "resolveBundleKey (p\<lparr>bundlePrefix := None\<rparr>) env w' = resolveBundleKey p env w'" for w'
    by (simp add: resolveBundleKey_def u)
  have v: "verifyResourcesExist (p\<lparr>bundlePrefix := None\<rparr>) env w' = verifyResourcesExist p env w'" for w'
    by (simp add: verifyResourcesExist_def Let_def split del: if_split cong: if_cong)
  have d: "deployRevision (p\<lparr>bundlePrefix := None\<rparr>) env k w' = deployRevision p env k w'" for w' k
    by (simp add: deployRevision_def Let_def split del: if_split
          cong: option.case_cong prod.case_cong sum.case_cong if_cong)
  show ?thesis
    by (simp add: execute_def u r v d split del: if_split
          cong: option.case_cong prod.case_cong sum.case_cong if_cong)
qed

subsection \<open>The basename and the extension of a path\<close>

lemma driveStart_le: "driveStart pf path \<le> length path"
  by (simp add: driveStart_def)

lemma loops_lockstep:
  assumes "bn_start b = startPart st" "bn_end b = endIdx st" "bn_matchedSlash b = matchedSlash st"
  shows "bn_start (basename_loop pf path lo n b) = startPart (extname_loop pf path lo n st) \<and>
         bn_end (basename_loop pf path lo n b) = endIdx (extname_loop pf path lo n st)"
  using assms
proof (induction n arbitrary: b st)
  case 0
  then show ?case by simp
next
  case (Suc i)
  show ?case
  proof (cases "i < lo")
    case True
    with Suc.prems show ?thesis by simp
  next
    case False
    note lo = False
    show ?thesis
    proof (cases "isPathSeparator pf (path ! i)")
      case True
      with lo Suc.prems Suc.IH [of b st] show ?thesis by simp
    next
      case False
      define st1 where "st1 = (if endIdx st = -1 then st\<lparr>endIdx := int i + 1, matchedSlash := False\<rparr> else st)"
      define st2 where "st2 = (if path ! i = CHR ''.'' then
                      (if startDot st1 = -1 then st1\<lparr>startDot := int i\<rparr>
                       else if preDotState st1 \<noteq> 1 then st1\<lparr>preDotState := 1\<rparr>
                       else st1)
                    else if startDot st1 \<noteq> -1 then st1\<lparr>preDotState := -1\<rparr>
                    else st1)"
      define b1 where "b1 = (if bn_end b = -1 then b\<lparr>bn_matchedSlash := False, bn_end := int i + 1\<rparr> else b)"
      have e: "extname_loop pf path lo (Suc i) st = extname_loop pf path lo i st2"
        using lo False by (simp add: st1_def st2_def Let_def)
      have bb: "basename_loop pf path lo (Suc i) b = basename_loop pf path lo i b1"
        using lo False by (simp add: b1_def)
      have "bn_start b1 = startPart st2" "bn_end b1 = endIdx st2" "bn_matchedSlash b1 = matchedSlash st2"
        using Suc.prems by (simp_all add: b1_def st1_def st2_def)
      from Suc.IH [OF this] e bb show ?thesis by simp
    qed
  qed
qed


lemma ball_from: "i < e \<Longrightarrow> (\<forall>j \<in> {i..<e}. P j) = (P i \<and> (\<forall>j \<in> {Suc i..<e}. P j))"
proof -
  assume "i < e"
  then have "{i..<e} = insert i {Suc i..<e}" by auto
  then show ?thesis by simp
qed

lemma segment_extend:
  assumes seg: "in_segment pf path (Suc i) e st"
    and ns: "\<not> isPathSeparator pf (path ! i)"
  defines "st2 \<equiv> (if path ! i = CHR ''.'' then
                      (if startDot st = -1 then st\<lparr>startDot := int i\<rparr>
                       else if preDotState st \<noteq> 1 then st\<lparr>preDotState := 1\<rparr>
                       else st)
                    else if startDot st \<noteq> -1 then st\<lparr>preDotState := -1\<rparr>
                    else st)"
  shows "in_segment pf path i e st2"
proof -
  from seg have e: "endIdx st = int e" "\<not> matchedSlash st" "Suc i < e" "e \<le> length path"
    and nosep: "\<forall>j \<in> {Suc i..<e}. \<not> isPathSeparator pf (path ! j)"
    by (simp_all add: in_segment_def)
  have ie: "i < e" using e(3) by simp
  have basic: "endIdx st2 = int e" "\<not> matchedSlash st2" "i < e" "e \<le> length path"
    "\<forall>j \<in> {i..<e}. \<not> isPathSeparator pf (path ! j)"
    using e nosep ns ie by (simp_all add: st2_def ball_from [OF ie])
  show ?thesis
  proof (cases "\<forall>j \<in> {Suc i..<e}. path ! j \<noteq> CHR ''.''")
    case True
    with seg have none: "startDot st = -1" "preDotState st = 0"
      by (simp_all add: in_segment_def)
    show ?thesis
    proof (cases "path ! i = CHR ''.''")
      case True
      have some: "\<not> (\<forall>j \<in> {i..<e}. path ! j \<noteq> CHR ''.'')" using True ie by auto
      have "\<exists>k \<in> {i..<e}. startDot st2 = int k \<and> path ! k = CHR ''.'' \<and>
              (\<forall>j \<in> {Suc k..<e}. path ! j \<noteq> CHR ''.'') \<and>
              preDotState st2 = (if k = i then 0 else if path ! i = CHR ''.'' then 1 else -1)"
        using True none ie \<open>\<forall>j \<in> {Suc i..<e}. path ! j \<noteq> CHR ''.''\<close>
        by (intro bexI [of _ i]) (simp_all add: st2_def)
      with basic show ?thesis unfolding in_segment_def if_not_P [OF some] by blast
    next
      case False
      with True ie have all: "\<forall>j \<in> {i..<e}. path ! j \<noteq> CHR ''.''" by (simp add: ball_from [OF ie])
      have "startDot st2 = -1" "preDotState st2 = 0"
        using False none by (simp_all add: st2_def)
      with basic show ?thesis unfolding in_segment_def if_P [OF all] by blast
    qed
  next
    case False
    with seg obtain k where k: "k \<in> {Suc i..<e}" "startDot st = int k" "path ! k = CHR ''.''"
      "\<forall>j \<in> {Suc k..<e}. path ! j \<noteq> CHR ''.''"
      by (auto simp: in_segment_def)
    from k(1) have ki: "k \<noteq> i" "k \<in> {i..<e}" by auto
    from k(1,3) have some: "\<not> (\<forall>j \<in> {i..<e}. path ! j \<noteq> CHR ''.'')" by auto
    have sd: "startDot st2 = int k" using k(2) by (simp add: st2_def)
    have pd: "preDotState st2 = (if path ! i = CHR ''.'' then 1 else -1)"
      using k(2) by (simp add: st2_def)
    have "\<exists>k \<in> {i..<e}. startDot st2 = int k \<and> path ! k = CHR ''.'' \<and>
              (\<forall>j \<in> {Suc k..<e}. path ! j \<noteq> CHR ''.'') \<and>
              preDotState st2 = (if k = i then 0 else if path ! i = CHR ''.'' then 1 else -1)"
      using ki k(3,4) sd pd by (intro bexI [of _ k]) simp_all
    with basic show ?thesis unfolding in_segment_def if_not_P [OF some] by blast
  qed
qed


lemma segment_loop:
  assumes "in_segment pf path n e st" "startPart st = int lo" "lo \<le> n"
  shows "\<exists>s. lo \<le> s \<and> s \<le> n \<and> in_segment pf path s e (extname_loop pf path lo n st) \<and>
             startPart (extname_loop pf path lo n st) = int s"
  using assms
proof (induction n arbitrary: st)
  case 0
  then show ?case by simp
next
  case (Suc i)
  show ?case
  proof (cases "i < lo")
    case True
    with Suc.prems have "lo = Suc i" by simp
    with True Suc.prems show ?thesis by (intro exI [of _ "Suc i"]) simp
  next
    case False
    note lo = False
    show ?thesis
    proof (cases "isPathSeparator pf (path ! i)")
      case True
      from Suc.prems(1) have "\<not> matchedSlash st" by (simp add: in_segment_def)
      with True lo have "extname_loop pf path lo (Suc i) st = st\<lparr>startPart := int i + 1\<rparr>"
        by simp
      moreover from Suc.prems(1) have "in_segment pf path (Suc i) e (st\<lparr>startPart := int i + 1\<rparr>)"
        by (simp add: in_segment_def)
      ultimately show ?thesis using lo by (intro exI [of _ "Suc i"]) simp
    next
      case False
      define st2 where "st2 = (if path ! i = CHR ''.'' then
                      (if startDot st = -1 then st\<lparr>startDot := int i\<rparr>
                       else if preDotState st \<noteq> 1 then st\<lparr>preDotState := 1\<rparr>
                       else st)
                    else if startDot st \<noteq> -1 then st\<lparr>preDotState := -1\<rparr>
                    else st)"
      from Suc.prems(1) have "endIdx st \<noteq> -1" by (simp add: in_segment_def)
      with lo False have step: "extname_loop pf path lo (Suc i) st = extname_loop pf path lo i st2"
        by (simp add: st2_def Let_def)
      from segment_extend [OF Suc.prems(1) False] have "in_segment pf path i e st2"
        by (simp add: st2_def)
      moreover have "startPart st2 = int lo" using Suc.prems(2) by (simp add: st2_def)
      moreover have "lo \<le> i" using lo by simp
      ultimately obtain s where "lo \<le> s" "s \<le> i"
        "in_segment pf path s e (extname_loop pf path lo i st2)"
        "startPart (extname_loop pf path lo i st2) = int s"
        using Suc.IH by blast
      with step show ?thesis by (intro exI [of _ s]) simp
    qed
  qed
qed

lemma scan_loop:
  assumes "endIdx st = -1" "matchedSlash st" "startDot st = -1" "preDotState st = 0"
    "startPart st = int lo" "lo \<le> n" "n \<le> length path"
  shows "endIdx (extname_loop pf path lo n st) = -1 \<and> startDot (extname_loop pf path lo n st) = -1 \<or>
         (\<exists>s e. in_segment pf path s e (extname_loop pf path lo n st) \<and>
                 startPart (extname_loop pf path lo n st) = int s)"
  using assms
proof (induction n arbitrary: st)
  case 0
  then show ?case by simp
next
  case (Suc i)
  show ?case
  proof (cases "i < lo")
    case True
    with Suc.prems show ?thesis by simp
  next
    case False
    note lo = False
    show ?thesis
    proof (cases "isPathSeparator pf (path ! i)")
      case True
      with lo Suc.prems have "extname_loop pf path lo (Suc i) st = extname_loop pf path lo i st"
        by simp
      moreover from lo Suc.prems have "lo \<le> i" "i \<le> length path" by simp_all
      ultimately show ?thesis using Suc.IH [of st] Suc.prems by simp
    next
      case False
      define st2 where "st2 = (if path ! i = CHR ''.''
          then st\<lparr>endIdx := int i + 1, matchedSlash := False, startDot := int i\<rparr>
          else st\<lparr>endIdx := int i + 1, matchedSlash := False\<rparr>)"
      from lo False Suc.prems have step:
        "extname_loop pf path lo (Suc i) st = extname_loop pf path lo i st2"
        by (simp add: st2_def Let_def)
      have "in_segment pf path i (Suc i) st2"
        using False Suc.prems by (simp add: in_segment_def st2_def)
      moreover have "startPart st2 = int lo" using Suc.prems by (simp add: st2_def)
      moreover have "lo \<le> i" using lo by simp
      ultimately have "\<exists>s. lo \<le> s \<and> s \<le> i \<and>
          in_segment pf path s (Suc i) (extname_loop pf path lo i st2) \<and>
          startPart (extname_loop pf path lo i st2) = int s"
        by (rule segment_loop)
      with step show ?thesis by auto
    qed
  qed
qed


lemma slice_nat: "slice path (int a) (int b) = take (b - a) (drop a path)"
  by (simp add: slice_def)

lemma path_loops:
  fixes pf path
  defines "st \<equiv> extname_loop pf path (driveStart pf path) (length path)
                  \<lparr>startDot = -1, startPart = int (driveStart pf path), endIdx = -1,
                   matchedSlash = True, preDotState = 0\<rparr>"
  shows "basename pf path = (if endIdx st = -1 then [] else slice path (startPart st) (endIdx st))"
    and "extname pf path =
      (if startDot st = -1 \<or> endIdx st = -1 \<or> preDotState st = 0 \<or>
            (preDotState st = 1 \<and> startDot st = endIdx st - 1 \<and> startDot st = startPart st + 1)
       then [] else slice path (startDot st) (endIdx st))"
    and "endIdx st = -1 \<and> startDot st = -1 \<or>
         (\<exists>s e. in_segment pf path s e st \<and> startPart st = int s)"
proof -
  let ?lo = "driveStart pf path"
  let ?b0 = "\<lparr>bn_start = int ?lo, bn_end = -1, bn_matchedSlash = True\<rparr>"
  let ?s0 = "\<lparr>startDot = -1, startPart = int ?lo, endIdx = -1,
                   matchedSlash = True, preDotState = 0\<rparr>"
  have "bn_start (basename_loop pf path ?lo (length path) ?b0) = startPart st \<and>
        bn_end (basename_loop pf path ?lo (length path) ?b0) = endIdx st"
    unfolding st_def by (rule loops_lockstep) simp_all
  then show "basename pf path = (if endIdx st = -1 then [] else slice path (startPart st) (endIdx st))"
    by (simp add: basename_def Let_def)
  show "extname pf path =
      (if startDot st = -1 \<or> endIdx st = -1 \<or> preDotState st = 0 \<or>
            (preDotState st = 1 \<and> startDot st = endIdx st - 1 \<and> startDot st = startPart st + 1)
       then [] else slice path (startDot st) (endIdx st))"
    by (simp add: extname_def st_def Let_def)
  show "endIdx st = -1 \<and> startDot st = -1 \<or>
         (\<exists>s e. in_segment pf path s e st \<and> startPart st = int s)"
    unfolding st_def by (rule scan_loop) (simp_all add: driveStart_le)
qed

lemma segment_nth:
  assumes "e \<le> length path" "s \<le> e" "j < e - s"
  shows "take (e - s) (drop s path) ! j = path ! (s + j)"
  using assms by simp

lemma extname_no_dot:
  assumes "CHR ''.'' \<notin> set (basename pf path)"
  shows "extname pf path = []"
proof -
  define st where "st = extname_loop pf path (driveStart pf path) (length path)
                  \<lparr>startDot = -1, startPart = int (driveStart pf path), endIdx = -1,
                   matchedSlash = True, preDotState = 0\<rparr>"
  note L = path_loops [of pf path, folded st_def]
  from L(3) show ?thesis
  proof
    assume "endIdx st = -1 \<and> startDot st = -1"
    with L(2) show ?thesis by simp
  next
    assume "\<exists>s e. in_segment pf path s e st \<and> startPart st = int s"
    then obtain s e where seg: "in_segment pf path s e st" and sp: "startPart st = int s" by blast
    from seg have e: "endIdx st = int e" "s < e" "e \<le> length path"
      by (simp_all add: in_segment_def)
    with L(1) sp have bn: "basename pf path = take (e - s) (drop s path)"
      by (simp add: slice_nat)
    have "\<forall>i \<in> {s..<e}. path ! i \<noteq> CHR ''.''"
    proof
      fix i assume i: "i \<in> {s..<e}"
      then have "i - s < e - s" by auto
      with e have "take (e - s) (drop s path) ! (i - s) = path ! (s + (i - s))"
        by (intro segment_nth) simp_all
      moreover have "take (e - s) (drop s path) ! (i - s) \<in> set (basename pf path)"
        unfolding bn using \<open>i - s < e - s\<close> e by (intro nth_mem) simp
      ultimately show "path ! i \<noteq> CHR ''.''" using assms i by auto
    qed
    with seg have "startDot st = -1" by (simp add: in_segment_def)
    with L(2) show ?thesis by simp
  qed
qed


lemma extname_last_dot:
  assumes bn: "basename pf path = stem @ CHR ''.'' # ext" and nd: "CHR ''.'' \<notin> set ext"
  shows "extname pf path =
           (if stem = [] \<or> (stem = ''.'' \<and> ext = []) then [] else CHR ''.'' # ext)"
proof -
  define st where "st = extname_loop pf path (driveStart pf path) (length path)
                  \<lparr>startDot = -1, startPart = int (driveStart pf path), endIdx = -1,
                   matchedSlash = True, preDotState = 0\<rparr>"
  note L = path_loops [of pf path, folded st_def]
  from L(3) show ?thesis
  proof
    assume "endIdx st = -1 \<and> startDot st = -1"
    with L(1) bn show ?thesis by simp
  next
    assume "\<exists>s e. in_segment pf path s e st \<and> startPart st = int s"
    then obtain s e where seg: "in_segment pf path s e st" and sp: "startPart st = int s" by blast
    from seg have e: "endIdx st = int e" "s < e" "e \<le> length path"
      by (simp_all add: in_segment_def)
    define sg where "sg = take (e - s) (drop s path)"
    from L(1) sp e have sg: "sg = stem @ CHR ''.'' # ext"
      using bn by (simp add: slice_nat sg_def)
    have len: "length sg = e - s" using e by (simp add: sg_def)
    have nth: "sg ! j = path ! (s + j)" if "j < e - s" for j
      unfolding sg_def using e that by (intro segment_nth) simp_all
    define k where "k = s + length stem"
    from len sg have le: "e - s = length stem + 1 + length ext" by simp
    then have k: "s \<le> k" "k < e" "e - k = 1 + length ext" by (simp_all add: k_def)
    have "path ! k = sg ! (length stem)" using nth [of "length stem"] le by (simp add: k_def)
    then have dot: "path ! k = CHR ''.''" by (simp add: sg)
    have after: "path ! i \<noteq> CHR ''.''" if "k < i" "i < e" for i
    proof -
      from that k have j: "i - s < e - s" "i - s = length stem + 1 + (i - k - 1)"
        "i - k - 1 < length ext"
        by (simp_all add: k_def) 
      from nth [OF j(1)] that k have "path ! i = sg ! (i - s)" by (simp add: k_def)
      also have "\<dots> = ext ! (i - k - 1)"
        by (subst j(2)) (simp add: sg nth_append)
      also have "\<dots> \<in> set ext" using j(3) by simp
      finally show ?thesis using nd by auto
    qed
    from k dot have some: "\<not> (\<forall>i \<in> {s..<e}. path ! i \<noteq> CHR ''.'')" by auto
    with seg obtain k' where k': "k' \<in> {s..<e}" "startDot st = int k'" "path ! k' = CHR ''.''"
      "\<forall>i \<in> {Suc k'..<e}. path ! i \<noteq> CHR ''.''"
      "preDotState st = (if k' = s then 0 else if path ! s = CHR ''.'' then 1 else -1)"
      unfolding in_segment_def if_not_P [OF some] by blast
    have "k' = k"
    proof (rule ccontr)
      assume "k' \<noteq> k"
      then consider "k' < k" | "k < k'" by linarith
      then show False
      proof cases
        case 1
        with k have "k \<in> {Suc k'..<e}" by simp
        with k'(4) dot show False by blast
      next
        case 2
        with k'(1) after [of k'] k'(3) show False by simp
      qed
    qed
    with k' have sd: "startDot st = int k"
      and pd: "preDotState st = (if k = s then 0 else if path ! s = CHR ''.'' then 1 else -1)"
      by simp_all
    have sl: "slice path (startDot st) (endIdx st) = CHR ''.'' # ext"
    proof -
      have "slice path (int k) (int e) = take (e - k) (drop k path)" by (rule slice_nat)
      also have "\<dots> = drop (length stem) sg"
        using k by (simp add: sg_def k_def drop_take add.commute)
      also have "\<dots> = CHR ''.'' # ext" by (simp add: sg)
      finally show ?thesis by (simp add: sd e)
    qed
    have first: "path ! s = hd stem" if "stem \<noteq> []"
    proof -
      from le have "0 < e - s" by simp
      from nth [OF this] have "path ! s = sg ! 0" by simp
      also have "\<dots> = hd stem" using that by (simp add: sg nth_append hd_conv_nth)
      finally show ?thesis .
    qed
    show ?thesis
    proof (cases "stem = []")
      case True
      then have "k = s" by (simp add: k_def)
      with pd L(2) True show ?thesis by simp
    next
      case False
      then have ks: "k \<noteq> s" by (simp add: k_def)
      have dd: "(preDotState st = 1 \<and> startDot st = endIdx st - 1 \<and> startDot st = startPart st + 1)
                  = (stem = ''.'' \<and> ext = [])"
      proof
        assume a: "preDotState st = 1 \<and> startDot st = endIdx st - 1 \<and> startDot st = startPart st + 1"
        with pd ks have "path ! s = CHR ''.''" by (simp split: if_splits)
        with first [OF False] have h: "hd stem = CHR ''.''" by simp
        from a sd e sp have "int k = int e - 1" "int k = int s + 1" by simp_all
        then have "k + 1 = e" "k = s + 1" by linarith+
        with le have "length stem = 1" "length ext = 0" unfolding k_def by linarith+
        then have "length stem = 1" "ext = []" by simp_all
        with h False show "stem = ''.'' \<and> ext = []"
          by (cases stem) simp_all
      next
        assume a: "stem = ''.'' \<and> ext = []"
        with first [OF False] have "path ! s = CHR ''.''" by simp
        with pd ks have "preDotState st = 1" by simp
        moreover from a le k have "k = s + 1" "int k = int e - 1" by (simp_all add: k_def)
        ultimately show "preDotState st = 1 \<and> startDot st = endIdx st - 1 \<and> startDot st = startPart st + 1"
          using sd e sp by simp
      qed
      have nz: "preDotState st \<noteq> 0" using pd ks by simp
      have "startDot st \<noteq> -1" "endIdx st \<noteq> -1" using sd e by simp_all
      with L(2) nz dd sl False show ?thesis by simp
    qed
  qed
qed


lemma archiveTypeOf_extname:
  "archiveTypeOf env key =
     (if length (extname (platform env) key) \<le> 1 then ''zip''
      else toLowerCase env (tl (extname (platform env) key)))"
  by (auto simp: archiveTypeOf_def Let_def drop_Suc)

lemma archiveTypeOf_no_dot:
  "CHR ''.'' \<notin> set (basename (platform env) key) \<Longrightarrow> archiveTypeOf env key = ''zip''"
  by (simp add: archiveTypeOf_extname extname_no_dot)

lemma archiveTypeOf_last_dot:
  assumes "basename (platform env) key = stem @ CHR ''.'' # ext" "CHR ''.'' \<notin> set ext"
  shows "archiveTypeOf env key =
           (if stem = [] \<or> ext = [] then ''zip'' else toLowerCase env ext)"
  by (simp add: archiveTypeOf_extname extname_last_dot [OF assms])

lemma extname_loop_keeps:
  "startDot st \<noteq> -1 \<Longrightarrow> endIdx st \<noteq> -1 \<Longrightarrow>
     startDot (extname_loop pf path lo n st) = startDot st \<and>
     endIdx (extname_loop pf path lo n st) = endIdx st"
  by (induction n arbitrary: st) (simp_all add: Let_def)

lemma extname_trailing_dot:
  assumes "path \<noteq> []" "last path = CHR ''.''"
  shows "extname pf path = [] \<or> extname pf path = ''.''"
proof -
  from assms(1) obtain n where n: "length path = Suc n" by (cases path) simp_all
  with assms have dot: "path ! n = CHR ''.''" by (simp add: last_conv_nth)
  let ?lo = "driveStart pf path"
  let ?s0 = "\<lparr>startDot = -1, startPart = int ?lo, endIdx = -1,
                   matchedSlash = True, preDotState = 0\<rparr>"
  let ?s2 = "\<lparr>startDot = int n, startPart = int ?lo, endIdx = int n + 1,
                   matchedSlash = False, preDotState = 0\<rparr>"
  show ?thesis
  proof (cases "n < ?lo")
    case True
    then have "extname_loop pf path ?lo (length path) ?s0 = ?s0" by (simp add: n)
    then show ?thesis by (simp add: extname_def Let_def)
  next
    case False
    with dot have step: "extname_loop pf path ?lo (length path) ?s0 = extname_loop pf path ?lo n ?s2"
      by (simp add: n isPathSeparator_def Let_def)
    have "startDot (extname_loop pf path ?lo n ?s2) = startDot ?s2 \<and>
          endIdx (extname_loop pf path ?lo n ?s2) = endIdx ?s2"
      by (rule extname_loop_keeps) simp_all
    with step have sd: "startDot (extname_loop pf path ?lo (length path) ?s0) = int n"
      and ed: "endIdx (extname_loop pf path ?lo (length path) ?s0) = int (Suc n)"
      by simp_all
    have "slice path (int n) (int (Suc n)) = ''.''"
      unfolding slice_nat using Cons_nth_drop_Suc [of n path] n dot by simp
    with sd ed show ?thesis by (simp add: extname_def Let_def)
  qed
qed

lemma archiveTypeOf_trailing_dot:
  assumes "key \<noteq> []" "last key = CHR ''.''"
  shows "archiveTypeOf env key = ''zip''"
  using extname_trailing_dot [OF assms, of "platform env"] by (auto simp: archiveTypeOf_extname)

subsection \<open>The arithmetic of numbers\<close>

lemma powi_nat: "0 \<le> e \<Longrightarrow> (2::rat) powi e = of_int (2 ^ nat e)"
  by (simp add: power_int_def)

lemma powi_neg: "e \<le> 0 \<Longrightarrow> (2::rat) powi e = 1 / of_int (2 ^ nat (- e))"
  by (cases "e = 0") (simp_all add: power_int_def field_simps)

lemma exponent_unique:
  assumes "2 powi e \<le> a" "a < 2 powi (e + 1)"
  shows "exponent a = e"
proof (cases "1 \<le> a")
  case True
  have e0: "0 \<le> e"
  proof (rule ccontr)
    assume "\<not> 0 \<le> e"
    then have "e + 1 \<le> 0" by simp
    then have "(2::rat) powi (e + 1) \<le> 1" by (simp add: powi_neg)
    with assms(2) True show False by simp
  qed
  from assms(1) e0 have "of_int (2 ^ nat e) \<le> a" by (simp add: powi_nat)
  then have lo: "2 ^ nat e \<le> \<lfloor>a\<rfloor>" by (simp add: le_floor_iff)
  from assms(2) e0 have "a < of_int (2 ^ nat (e + 1))" by (simp add: powi_nat)
  then have hi: "\<lfloor>a\<rfloor> < 2 ^ nat (e + 1)" by (simp add: floor_less_iff)
  have "bitlen \<lfloor>a\<rfloor> \<le> e + 1" using hi e0 by (simp add: bitlen_le_iff_power)
  moreover have "e + 1 \<le> bitlen \<lfloor>a\<rfloor>" using lo e0
    by (simp add: bitlen_ge_iff_power nat_add_distrib)
  ultimately show ?thesis using True by (simp add: exponent_def)
next
  case False
  have pos: "0 < a" using assms(1) by (meson less_le_trans zero_less_numeral zero_less_power_int)
  have e0: "e < 0"
  proof (rule ccontr)
    assume "\<not> e < 0"
    then have "(1::rat) \<le> 2 powi e" by (simp add: powi_nat)
    with assms(1) False show False by simp
  qed
  define c where "c = \<lceil>1 / a\<rceil>"
  from assms(1) e0 have "1 / of_int (2 ^ nat (- e)) \<le> a" by (simp add: powi_neg)
  with pos have "1 / a \<le> of_int (2 ^ nat (- e))"
    by (simp add: field_simps)
  then have hi: "c \<le> 2 ^ nat (- e)" unfolding c_def by (simp add: ceiling_le_iff)
  from assms(2) e0 have "a < 1 / of_int (2 ^ nat (- (e + 1)))" by (simp add: powi_neg)
  with pos have "of_int (2 ^ nat (- (e + 1))) < 1 / a"
    by (simp add: field_simps)
  then have lo: "2 ^ nat (- (e + 1)) < c" unfolding c_def by (simp add: less_ceiling_iff)
  have "bitlen (c - 1) \<le> - e" using hi e0 by (simp add: bitlen_le_iff_power)
  moreover have "- e \<le> bitlen (c - 1)"
  proof -
    have "nat (- e) - 1 = nat (- (e + 1))" using e0 by simp
    with lo show ?thesis by (simp add: bitlen_ge_iff_power)
  qed
  ultimately show ?thesis using False by (simp add: exponent_def c_def)
qed

lemma roundTiesToEven_of_int: "roundTiesToEven (of_int z) = z"
  by (simp add: roundTiesToEven_def)


lemma fl_exact:
  assumes x: "x = of_int n * 2 powi k" and n: "n \<noteq> 0" "\<bar>n\<bar> < 2 ^ 53"
    and k: "- 1074 \<le> k" "k \<le> 971"
  shows "fl x = Finite x"
proof -
  define N where "N = \<bar>n\<bar>"
  define L where "L = bitlen N"
  have Npos: "0 < N" using n by (simp add: N_def)
  have p2: "(0::rat) < 2 powi i" for i by simp
  have a: "\<bar>x\<bar> = of_int N * 2 powi k"
    by (simp add: x N_def abs_mult)
  have xnz: "x \<noteq> 0" using n by (simp add: x)
  from bitlen_bounds [OF Npos] have b: "2 ^ nat (L - 1) \<le> N" "N < 2 ^ nat L"
    by (simp_all add: L_def)
  have L1: "1 \<le> L" using Npos by (simp add: L_def bitlen_ge_iff_power)
  have L53: "L \<le> 53" using n(2) by (simp add: L_def N_def bitlen_le_iff_power)
  define e0 where "e0 = L - 1 + k"
  have lo: "2 powi e0 \<le> \<bar>x\<bar>"
  proof -
    have "(2::rat) powi e0 = 2 powi (L - 1) * 2 powi k" by (simp add: e0_def power_int_add)
    also have "(2::rat) powi (L - 1) = of_int (2 ^ nat (L - 1))" using L1 by (simp add: powi_nat)
    also have "\<dots> \<le> of_int N" using b(1) by (simp only: of_int_le_iff)
    finally show ?thesis unfolding a by (simp add: mult_right_mono)
  qed
  have hi: "\<bar>x\<bar> < 2 powi (e0 + 1)"
  proof -
    have "(of_int N :: rat) < of_int (2 ^ nat L)" using b(2) by (simp only: of_int_less_iff)
    also have "\<dots> = 2 powi L" using L1 by (simp add: powi_nat)
    finally have "of_int N * 2 powi k < 2 powi L * (2::rat) powi k"
      by (simp add: mult_strict_right_mono)
    also have "\<dots> = 2 powi (e0 + 1)" by (simp add: e0_def power_int_add [symmetric])
    finally show ?thesis unfolding a .
  qed
  have ex: "exponent \<bar>x\<bar> = e0" using lo hi by (rule exponent_unique)
  define e where "e = max e0 (- 1022)"
  define d where "d = k - e + 52"
  have d0: "0 \<le> d" using L53 k by (simp add: d_def e_def e0_def max_def)
  define z where "z = N * 2 ^ nat d"
  have zpos: "0 < z" using Npos by (simp add: z_def)
  have quot: "\<bar>x\<bar> / 2 powi (e - 52) = of_int z"
  proof -
    have "\<bar>x\<bar> / 2 powi (e - 52) = of_int N * (2 powi k / 2 powi (e - 52))" by (simp add: a)
    also have "(2::rat) powi k / 2 powi (e - 52) = 2 powi d"
      by (simp add: d_def power_int_diff [symmetric] algebra_simps)
    also have "\<dots> = of_int (2 ^ nat d)" using d0 by (simp add: powi_nat)
    finally show ?thesis by (simp add: z_def)
  qed
  have restored: "of_int z * 2 powi (e - 52) = \<bar>x\<bar>"
    using quot by (simp add: field_simps)
  have small: "\<not> 2 ^ 1024 \<le> \<bar>x\<bar>"
  proof -
    have "e0 + 1 \<le> 1024" using L53 k by (simp add: e0_def)
    then have "(2::rat) powi (e0 + 1) \<le> 2 powi 1024" by (intro power_int_increasing) simp_all
    with hi show ?thesis by simp
  qed
  have sgn: "(if x < 0 then - \<bar>x\<bar> else \<bar>x\<bar>) = x" by simp
  have E: "max (exponent \<bar>x\<bar>) (- 1022) = e" by (simp add: ex e_def)
  have R: "roundTiesToEven (\<bar>x\<bar> / 2 powi (e - 52)) = z"
    by (simp only: quot roundTiesToEven_of_int)
  have "fl x = (if 2 ^ 1024 \<le> \<bar>x\<bar> then Infinity (x < 0)
           else if z = 0 then signedZero (x < 0)
           else Finite (if x < 0 then - \<bar>x\<bar> else \<bar>x\<bar>))"
    unfolding fl_def Let_def E R restored using xnz by (simp only: if_False)
  also have "\<dots> = Finite (if x < 0 then - \<bar>x\<bar> else \<bar>x\<bar>)"
    using small zpos by (simp only: if_False less_irrefl) simp
  also have "\<dots> = Finite x" by (simp only: sgn)
  finally show ?thesis .
qed


text \<open>
  For evaluation: a whole number below \<open>2\<^sup>5\<^sup>3\<close> in magnitude is a double, and the bound
  \<open>2\<^sup>1\<^sup>0\<^sup>2\<^sup>4\<close> is written out.
\<close>

lemma two_pow_1024: "(2::rat) ^ 1024 = 179769313486231590772930519078902473361797697894230657273430081157732675805500963132708477322407536021120113879871393357658789768814416622492847430639474124377767893424865485276302219601246094119453082952085005768838150682342462881473913110540827237163350510684586298239947245938479716304835356329624224137216"
  by simp

lemma fl_code [code]:
  "fl x =
     (if x = of_int \<lfloor>x\<rfloor> \<and> \<bar>\<lfloor>x\<rfloor>\<bar> < 9007199254740992 then Finite x
      else
        let a = \<bar>x\<bar>;
            e = max (exponent a) (- 1022);
            q = 2 powi (e - 52);
            n = roundTiesToEven (a / q);
            m = of_int n * q
        in if 179769313486231590772930519078902473361797697894230657273430081157732675805500963132708477322407536021120113879871393357658789768814416622492847430639474124377767893424865485276302219601246094119453082952085005768838150682342462881473913110540827237163350510684586298239947245938479716304835356329624224137216 \<le> m then Infinity (x < 0)
           else if n = 0 then signedZero (x < 0)
           else Finite (if x < 0 then - m else m))"
proof (cases "x = of_int \<lfloor>x\<rfloor> \<and> \<bar>\<lfloor>x\<rfloor>\<bar> < 9007199254740992")
  case True
  show ?thesis
  proof (cases "x = 0")
    case True
    then show ?thesis by (simp add: fl_def)
  next
    case False
    from True have xi: "x = of_int \<lfloor>x\<rfloor>" and b: "\<bar>\<lfloor>x\<rfloor>\<bar> < 2 ^ 53" by simp_all
    from xi False have n0: "\<lfloor>x\<rfloor> \<noteq> 0" by auto
    from xi have "x = of_int \<lfloor>x\<rfloor> * 2 powi 0" by simp
    from fl_exact [OF this n0 b] have "fl x = Finite x" by simp
    then show ?thesis unfolding if_P [OF True] .
  qed
next
  case False
  then have nz: "x \<noteq> 0" by auto
  show ?thesis
    unfolding if_not_P [OF False] fl_def if_not_P [OF nz] two_pow_1024 by (rule refl)
qed

lemma attempts_exact:
  fixes k :: int and j :: nat
  defines "t \<equiv> of_int k / 2 ^ j"
  assumes k: "\<bar>k\<bar> * 60 < 2 ^ 53" and j: "j \<le> 1074"
  shows "Math_round (num_divide (num_times (Finite t) (Finite 60)) (Finite 15)) =
           (if specMaxAttempts t = 0 \<and> t < 0 then NegZero
            else Finite (of_int (specMaxAttempts t)))"
proof (cases "k = 0")
  case True
  then have "t = 0" by (simp add: t_def)
  then show ?thesis
    by (simp add: num_times_def num_divide_def isZero_def isFinite_def signedZero_def
          isNegative_def Math_round_def specMaxAttempts_def)
next
  case False
  have tnz: "t \<noteq> 0" using False by (simp add: t_def)
  have pw: "(2::rat) powi (- int j) = 1 / 2 ^ j" by (simp add: power_int_minus field_simps)
  have p: "t * 60 = of_int (k * 60) * 2 powi (- int j)" by (simp add: t_def pw)
  have q: "t * 60 / 15 = of_int (k * 4) * 2 powi (- int j)" by (simp add: t_def pw)
  have f1: "fl (t * 60) = Finite (t * 60)"
    using p
  proof (rule fl_exact)
    show "k * 60 \<noteq> 0" using False by simp
    show "\<bar>k * 60\<bar> < 2 ^ 53" using k by (simp add: abs_mult)
    show "- 1074 \<le> - int j" using j by simp
    show "- int j \<le> 971" by simp
  qed
  have f2: "fl (t * 60 / 15) = Finite (t * 60 / 15)"
    using q
  proof (rule fl_exact)
    show "k * 4 \<noteq> 0" using False by simp
    show "\<bar>k * 4\<bar> < 2 ^ 53" using k by (simp add: abs_mult)
    show "- 1074 \<le> - int j" using j by simp
    show "- int j \<le> 971" by simp
  qed
  have m: "num_times (Finite t) (Finite 60) = Finite (t * 60)"
    using tnz f1 by (simp add: num_times_def isZero_def isFinite_def valueOf_def)
  have d: "num_divide (Finite (t * 60)) (Finite 15) = Finite (t * 60 / 15)"
    using tnz f2 by (simp add: num_divide_def isZero_def isFinite_def valueOf_def)
  have neg: "(t * 60 / 15 < 0) = (t < 0)" by (simp add: field_simps)
  show ?thesis
    unfolding m d by (simp add: Math_round_def specMaxAttempts_def Let_def neg)
qed

lemma specMaxAttempts_whole: "specMaxAttempts (of_int m) = 4 * m"
proof -
  have e: "(of_int m :: rat) * 60 / 15 + 1 / 2 = of_int (4 * m) + 1 / 2" by simp
  have "\<lfloor>(of_int (4 * m) :: rat) + 1 / 2\<rfloor> = 4 * m"
    by (rule floor_unique) simp_all
  then show ?thesis unfolding specMaxAttempts_def e .
qed

lemma attempts_whole:
  assumes "\<bar>m\<bar> \<le> 150119987579016"
  shows "Math_round (num_divide (num_times (Finite (of_int m)) (Finite 60)) (Finite 15)) =
           Finite (of_int (4 * m))"
proof -
  from assms have k: "\<bar>m\<bar> * 60 < 2 ^ 53" by simp
  have t: "(of_int m :: rat) / 2 ^ (0::nat) = of_int m" by simp
  have z: "\<not> (4 * m = 0 \<and> (of_int m :: rat) < 0)" by simp
  from attempts_exact [OF k, of 0] show ?thesis
    unfolding t specMaxAttempts_whole if_not_P [OF z] by simp
qed

lemma lowersAsciiD:
  "lowersAscii env \<Longrightarrow> list_all isAscii s \<Longrightarrow> toLowerCase env s = asciiLowerCase s"
  by (simp add: lowersAscii_def)

lemma basename_upper_example:
  "basename pf ''Bundle.TAR'' = ''Bundle'' @ CHR ''.'' # ''TAR''"
proof (cases pf)
  case Posix
  have "basename Posix ''Bundle.TAR'' = ''Bundle'' @ CHR ''.'' # ''TAR''" by code_simp
  with Posix show ?thesis by simp
next
  case Win32
  have "basename Win32 ''Bundle.TAR'' = ''Bundle'' @ CHR ''.'' # ''TAR''" by code_simp
  with Win32 show ?thesis by simp
qed

subsection \<open>The run after a deployment was created\<close>

lemma submitted_run:
  assumes "CreateDeployment req \<in> set (calls p env w)" "createDeployment env req = Inr resp"
  shows "(\<exists>pre. calls p env w = pre @ [CreateDeployment req] @
            (case outputVariable p of
               Some name \<Rightarrow> if name \<noteq> [] then [SetVariable name (returnedId resp)] else []
             | None \<Rightarrow> []) @
            [WaitFor (setWaiterParams (returnedId resp) (timeoutInMins p))]) \<and>
         variables (snd (execute p env w)) =
           (case outputVariable p of
              Some name \<Rightarrow>
                if name \<noteq> [] then (variables w)(name \<mapsto> returnedId resp) else variables w
            | None \<Rightarrow> variables w) \<and>
         fst (execute p env w) =
           (case waitFor env (setWaiterParams (returnedId resp) (timeoutInMins p)) of
              Some msg \<Rightarrow> Inl (DeploymentFailed (applicationName p) msg)
            | None \<Rightarrow> Inr ())"
proof (cases p env w rule: execute_cases)
  case (verify_failed e evsV)
  with assms show ?thesis by (auto dest: probe_eventD)
next
  case (resolve_failed w1 e evsV evsR)
  with assms show ?thesis by (auto dest: probe_eventD bundle_eventD)
next
  case (deploy_failed w1 w2 key req' msg evsV evsR)
  with assms(1) have "req = req'" by (auto dest: probe_eventD bundle_eventD)
  with deploy_failed assms(2) show ?thesis by simp
next
  case (waited w1 w2 key req' resp' d wp pub evsV evsR)
  note cd = waited(9) and dd = waited(10) and wp = waited(11) and pb = waited(12)
    and fr = waited(13) and cs = waited(14) and pv = waited(15) and bv = waited(16)
    and vr = waited(18)
  have pub: "\<forall>e \<in> set pub. \<exists>n. e = SetVariable n d"
    using pb by (auto split: option.splits)
  from assms(1) cs pv bv pub have rq: "req = req'" by (auto dest: probe_eventD bundle_eventD)
  with cd assms(2) have "resp' = resp" by simp
  with dd have d: "d = returnedId resp" by (simp add: returnedId_def split: option.splits)
  have "calls p env w = (evsV @ evsR) @ [CreateDeployment req] @ pub @ [WaitFor wp]"
    using cs rq by simp
  then have "\<exists>pre. calls p env w = pre @ [CreateDeployment req] @ pub @ [WaitFor wp]"
    by blast
  then have ex: "\<exists>pre. calls p env w = pre @ [CreateDeployment req] @
            (case outputVariable p of
               Some name \<Rightarrow> if name \<noteq> [] then [SetVariable name (returnedId resp)] else []
             | None \<Rightarrow> []) @
            [WaitFor (setWaiterParams (returnedId resp) (timeoutInMins p))]"
    unfolding pb wp d .
  from vr have vr': "variables (snd (execute p env w)) =
           (case outputVariable p of
              Some name \<Rightarrow>
                if name \<noteq> [] then (variables w)(name \<mapsto> returnedId resp) else variables w
            | None \<Rightarrow> variables w)"
    unfolding d .
  from fr have fr': "fst (execute p env w) =
           (case waitFor env (setWaiterParams (returnedId resp) (timeoutInMins p)) of
              Some msg \<Rightarrow> Inl (DeploymentFailed (applicationName p) msg)
            | None \<Rightarrow> Inr ())"
    unfolding wp d .
  from ex vr' fr' show ?thesis by (intro conjI)
qed

subsection \<open>What the revision source selects\<close>

lemma revision_paths_of_run:
  "(deploymentRevisionSource p = revisionSourceFromS3 \<longrightarrow>
      (\<forall>f. Stats f \<notin> set (calls p env w)) \<and>
      (\<forall>d a. WriteZip d a \<notin> set (calls p env w)) \<and>
      (\<forall>r. Upload r \<notin> set (calls p env w)) \<and>
      (\<forall>f. UnlinkSync f \<notin> set (calls p env w)) \<and>
      fs (snd (execute p env w)) = fs w \<and>
      (\<forall>r. CreateDeployment r \<in> set (calls p env w) \<longrightarrow>
         s3_bucket (cd_s3Location r) = bucketName p \<and> s3_key (cd_s3Location r) = bundleKey p) \<and>
      (probesSucceed p env \<longrightarrow> (\<exists>r. CreateDeployment r \<in> set (calls p env w)))) \<and>
   (deploymentRevisionSource p = revisionSourceFromWorkspace \<and> probesSucceed p env \<longrightarrow>
      Stats (revisionBundle p) \<in> set (calls p env w) \<and>
      (\<forall>r. CreateDeployment r \<in> set (calls p env w) \<longrightarrow>
         (\<exists>up. Upload up \<in> set (calls p env w) \<and> upload env up = None \<and>
            s3_key (cd_s3Location r) = Key up))) \<and>
   (deploymentRevisionSource p \<noteq> revisionSourceFromWorkspace \<and>
    deploymentRevisionSource p \<noteq> revisionSourceFromS3 \<and> probesSucceed p env \<longrightarrow>
      fst (execute p env w) = Inl (UnknownRevisionSource (deploymentRevisionSource p)) \<and>
      list_all probe_event (calls p env w) \<and>
      fs (snd (execute p env w)) = fs w)"
proof (cases p env w rule: run_parts)
  case (stopped e)
  then show ?thesis by (auto dest: probe_eventD)
next
  case (resolved w1 r w2 evsV evsR rest)
  note rc = resolved_calls [OF resolved(2) resolved(4)]
  note f1 = resolved(3) and cs0 = resolved(5) and pv = resolved(6) and bv = resolved(7)
    and dv = resolved(8) and fin = resolved(9) and shape = resolved(10)
  show ?thesis
  proof (intro conjI impI)
    assume s3: "deploymentRevisionSource p = revisionSourceFromS3"
    with rc have e: "evsR = []" "r = Inr (bundleKey p)" "fs w2 = fs w1" by simp_all
    with cs0 have cs: "calls p env w = evsV @ rest" by simp
    from shape e(2) have "\<exists>req rest'. rest = CreateDeployment req # rest' \<and>
            s3_key (cd_s3Location req) = bundleKey p \<and>
            s3_bucket (cd_s3Location req) = bucketName p \<and>
            (\<forall>r'. CreateDeployment r' \<in> set rest \<longrightarrow> r' = req)"
      by simp
    then obtain req rest' where rest: "rest = CreateDeployment req # rest'"
      "s3_key (cd_s3Location req) = bundleKey p" "s3_bucket (cd_s3Location req) = bucketName p"
      "\<forall>r'. CreateDeployment r' \<in> set rest \<longrightarrow> r' = req"
      by blast
    from cs pv dv show "\<forall>f. Stats f \<notin> set (calls p env w)"
      and "\<forall>d a. WriteZip d a \<notin> set (calls p env w)"
      and "\<forall>r. Upload r \<notin> set (calls p env w)"
      and "\<forall>f. UnlinkSync f \<notin> set (calls p env w)"
      by (auto dest: probe_eventD deploy_eventD)
    from fin f1 e show "fs (snd (execute p env w)) = fs w" by simp
    show "\<forall>r. CreateDeployment r \<in> set (calls p env w) \<longrightarrow>
         s3_bucket (cd_s3Location r) = bucketName p \<and> s3_key (cd_s3Location r) = bundleKey p"
    proof (intro allI impI)
      fix r' assume "CreateDeployment r' \<in> set (calls p env w)"
      with cs pv have "CreateDeployment r' \<in> set rest" by (auto dest: probe_eventD)
      with rest(4) have "r' = req" by blast
      with rest(2,3) show "s3_bucket (cd_s3Location r') = bucketName p \<and>
          s3_key (cd_s3Location r') = bundleKey p" by simp
    qed
    from cs rest(1) have "CreateDeployment req \<in> set (calls p env w)" by simp
    then show "\<exists>r. CreateDeployment r \<in> set (calls p env w)" by blast
  next
    assume ws: "deploymentRevisionSource p = revisionSourceFromWorkspace \<and> probesSucceed p env"
    with rc have st: "Stats (revisionBundle p) \<in> set evsR"
      and up: "\<forall>key. r = Inr key \<longrightarrow>
               (\<exists>up. Upload up \<in> set evsR \<and> upload env up = None \<and> key = Key up)"
      by simp_all
    from st cs0 show "Stats (revisionBundle p) \<in> set (calls p env w)" by simp
    show "\<forall>r. CreateDeployment r \<in> set (calls p env w) \<longrightarrow>
         (\<exists>up. Upload up \<in> set (calls p env w) \<and> upload env up = None \<and>
            s3_key (cd_s3Location r) = Key up)"
    proof (intro allI impI)
      fix r' assume "CreateDeployment r' \<in> set (calls p env w)"
      with cs0 pv bv have in_rest: "CreateDeployment r' \<in> set rest"
        by (auto dest: probe_eventD bundle_eventD)
      show "\<exists>up. Upload up \<in> set (calls p env w) \<and> upload env up = None \<and>
            s3_key (cd_s3Location r') = Key up"
      proof (cases r)
        case (Inl e)
        with shape in_rest show ?thesis by simp
      next
        case (Inr key)
        with shape have "\<exists>req rest'. rest = CreateDeployment req # rest' \<and>
            s3_key (cd_s3Location req) = key \<and>
            s3_bucket (cd_s3Location req) = bucketName p \<and>
            (\<forall>r'. CreateDeployment r' \<in> set rest \<longrightarrow> r' = req)"
          by simp
        then obtain req rest' where rest: "rest = CreateDeployment req # rest'"
          "s3_key (cd_s3Location req) = key"
          "\<forall>r'. CreateDeployment r' \<in> set rest \<longrightarrow> r' = req"
          by blast
        from rest(3) in_rest have "r' = req" by blast
        with rest(2) have k: "s3_key (cd_s3Location r') = key" by simp
        from up Inr obtain u where u: "Upload u \<in> set evsR" "upload env u = None" "key = Key u"
          by auto
        from u(1) cs0 have "Upload u \<in> set (calls p env w)" by simp
        with u k show ?thesis by blast
      qed
    qed
  next
    assume u: "deploymentRevisionSource p \<noteq> revisionSourceFromWorkspace \<and>
       deploymentRevisionSource p \<noteq> revisionSourceFromS3 \<and> probesSucceed p env"
    with rc have e: "evsR = []" "r = Inl (UnknownRevisionSource (deploymentRevisionSource p))"
      "fs w2 = fs w1" by simp_all
    from shape e(2) have r0: "fst (execute p env w) = Inl (UnknownRevisionSource (deploymentRevisionSource p))"
      "rest = []" by simp_all
    from r0 show "fst (execute p env w) = Inl (UnknownRevisionSource (deploymentRevisionSource p))"
      by simp
    from cs0 e(1) r0(2) pv show "list_all probe_event (calls p env w)" by simp
    from fin f1 e(3) show "fs (snd (execute p env w)) = fs w" by simp
  qed
qed

subsection \<open>Claims\<close>

text \<open>
  C1 (as amended). \<open>execute\<close> publishes the deployment's identifier right after the
  deployment was created and before it waits. In a run whose \<^verbatim>\<open>createDeployment\<close> call
  succeeded, with an output variable configured, the last three calls are the creation,
  \<^verbatim>\<open>setVariable\<close> of that variable to the identifier of the service's response, and the wait
  for that identifier; the variable holds the identifier at the end, and the run ends as the
  wait does, so a failing wait leaves the identifier published. With no output variable the
  creation is followed by the wait alone and no variable changes. A run that ends with
  \<^verbatim>\<open>DeploymentFailed\<close>, and a run that ends well, is a run whose \<^verbatim>\<open>createDeployment\<close> call
  succeeded. A variable is set only to the identifier of a successful \<^verbatim>\<open>createDeployment\<close>
  call, under the configured name.
\<close>

theorem output_published_before_wait:
  "(\<forall>req resp name. CreateDeployment req \<in> set (calls p env w) \<and>
       createDeployment env req = Inr resp \<and> outputVariable p = Some name \<and> name \<noteq> [] \<longrightarrow>
       (\<exists>pre. calls p env w =
          pre @ [CreateDeployment req, SetVariable name (returnedId resp),
                 WaitFor (setWaiterParams (returnedId resp) (timeoutInMins p))]) \<and>
       variables (snd (execute p env w)) name = Some (returnedId resp) \<and>
       fst (execute p env w) =
         (case waitFor env (setWaiterParams (returnedId resp) (timeoutInMins p)) of
            Some msg \<Rightarrow> Inl (DeploymentFailed (applicationName p) msg)
          | None \<Rightarrow> Inr ())) \<and>
   (\<forall>req resp. CreateDeployment req \<in> set (calls p env w) \<and>
       createDeployment env req = Inr resp \<and> \<not> truthy (outputVariable p) \<longrightarrow>
       (\<exists>pre. calls p env w =
          pre @ [CreateDeployment req,
                 WaitFor (setWaiterParams (returnedId resp) (timeoutInMins p))]) \<and>
       variables (snd (execute p env w)) = variables w) \<and>
   (\<forall>a msg. fst (execute p env w) = Inl (DeploymentFailed a msg) \<longrightarrow>
       (\<exists>req resp. CreateDeployment req \<in> set (calls p env w) \<and>
          createDeployment env req = Inr resp \<and>
          waitFor env (setWaiterParams (returnedId resp) (timeoutInMins p)) = Some msg)) \<and>
   (fst (execute p env w) = Inr () \<longrightarrow>
       (\<exists>req resp. CreateDeployment req \<in> set (calls p env w) \<and>
          createDeployment env req = Inr resp)) \<and>
   (\<forall>name v. SetVariable name v \<in> set (calls p env w) \<longrightarrow>
       outputVariable p = Some name \<and>
       (\<exists>req resp. CreateDeployment req \<in> set (calls p env w) \<and>
          createDeployment env req = Inr resp \<and> v = returnedId resp)) \<and>
   (\<forall>name wp. outputVariable p = Some name \<and> name \<noteq> [] \<and> WaitFor wp \<in> set (calls p env w) \<longrightarrow>
       (\<exists>pre. calls p env w = pre @ [SetVariable name (wp_deploymentId wp), WaitFor wp]) \<and>
       variables (snd (execute p env w)) name = Some (wp_deploymentId wp))"
proof (intro conjI allI impI)
  fix req resp name
  assume a: "CreateDeployment req \<in> set (calls p env w) \<and>
       createDeployment env req = Inr resp \<and> outputVariable p = Some name \<and> name \<noteq> []"
  then have s: "CreateDeployment req \<in> set (calls p env w)" "createDeployment env req = Inr resp"
    and o: "outputVariable p = Some name" "name \<noteq> []" by simp_all
  from submitted_run [OF s] o
  show "\<exists>pre. calls p env w =
          pre @ [CreateDeployment req, SetVariable name (returnedId resp),
                 WaitFor (setWaiterParams (returnedId resp) (timeoutInMins p))]"
    and "variables (snd (execute p env w)) name = Some (returnedId resp)"
    and "fst (execute p env w) =
         (case waitFor env (setWaiterParams (returnedId resp) (timeoutInMins p)) of
            Some msg \<Rightarrow> Inl (DeploymentFailed (applicationName p) msg)
          | None \<Rightarrow> Inr ())"
    by simp_all
next
  fix req resp
  assume a: "CreateDeployment req \<in> set (calls p env w) \<and>
       createDeployment env req = Inr resp \<and> \<not> truthy (outputVariable p)"
  then have s: "CreateDeployment req \<in> set (calls p env w)" "createDeployment env req = Inr resp"
    and o: "\<not> truthy (outputVariable p)" by simp_all
  from o have o': "(case outputVariable p of
               Some name \<Rightarrow> if name \<noteq> [] then [SetVariable name (returnedId resp)] else []
             | None \<Rightarrow> []) = []"
    "(case outputVariable p of
              Some name \<Rightarrow>
                if name \<noteq> [] then (variables w)(name \<mapsto> returnedId resp) else variables w
            | None \<Rightarrow> variables w) = variables w"
    by (auto split: option.splits)
  from submitted_run [OF s]
  show "\<exists>pre. calls p env w =
          pre @ [CreateDeployment req,
                 WaitFor (setWaiterParams (returnedId resp) (timeoutInMins p))]"
    and "variables (snd (execute p env w)) = variables w"
    unfolding o' by simp_all
next
  fix a msg
  assume f: "fst (execute p env w) = Inl (DeploymentFailed a msg)"
  show "\<exists>req resp. CreateDeployment req \<in> set (calls p env w) \<and>
          createDeployment env req = Inr resp \<and>
          waitFor env (setWaiterParams (returnedId resp) (timeoutInMins p)) = Some msg"
  proof (cases p env w rule: execute_cases)
    case (verify_failed e evsV)
    with f show ?thesis
      by (auto simp: verifyResourcesExist_def Let_def split: if_splits)
  next
    case (resolve_failed w1 e evsV evsR)
    with f have "resolveBundleKey p env w1 = (Inl (DeploymentFailed a msg), snd (execute p env w))"
      by simp
    then show ?thesis
      by (auto simp: resolveBundleKey_def split: if_splits elim: uploadBundle_cases)
  next
    case (deploy_failed w1 w2 key req msg evsV evsR)
    with f show ?thesis by simp
  next
    case (waited w1 w2 key req resp d wp pub evsV evsR)
    from waited have cd: "createDeployment env req = Inr resp"
      and dd: "d = (case resp of None \<Rightarrow> [] | Some i \<Rightarrow> i)"
      and wp: "wp = setWaiterParams d (timeoutInMins p)"
      and cs: "calls p env w = evsV @ evsR @ [CreateDeployment req] @ pub @ [WaitFor wp]"
      and r: "fst (execute p env w) =
         (case waitFor env wp of
            Some msg \<Rightarrow> Inl (DeploymentFailed (applicationName p) msg)
          | None \<Rightarrow> Inr ())"
      by simp_all
    from dd have d: "d = returnedId resp" by (simp add: returnedId_def split: option.splits)
    from r f have "waitFor env wp = Some msg" by (simp split: option.splits)
    with cd cs wp d show ?thesis by auto
  qed
next
  assume f: "fst (execute p env w) = Inr ()"
  show "\<exists>req resp. CreateDeployment req \<in> set (calls p env w) \<and>
          createDeployment env req = Inr resp"
  proof (cases p env w rule: execute_cases)
    case (verify_failed e evsV)
    with f show ?thesis by simp
  next
    case (resolve_failed w1 e evsV evsR)
    with f show ?thesis by simp
  next
    case (deploy_failed w1 w2 key req msg evsV evsR)
    with f show ?thesis by simp
  next
    case (waited w1 w2 key req resp d wp pub evsV evsR)
    then show ?thesis by auto
  qed
next
  fix name v
  assume s: "SetVariable name v \<in> set (calls p env w)"
  show "outputVariable p = Some name"
    and "\<exists>req resp. CreateDeployment req \<in> set (calls p env w) \<and>
          createDeployment env req = Inr resp \<and> v = returnedId resp"
  proof -
    have "outputVariable p = Some name \<and>
      (\<exists>req resp. CreateDeployment req \<in> set (calls p env w) \<and>
          createDeployment env req = Inr resp \<and> v = returnedId resp)"
    proof (cases p env w rule: execute_cases)
      case (verify_failed e evsV)
      with s show ?thesis by (auto dest: probe_eventD)
    next
      case (resolve_failed w1 e evsV evsR)
      with s show ?thesis by (auto dest: probe_eventD bundle_eventD)
    next
      case (deploy_failed w1 w2 key req msg evsV evsR)
      with s show ?thesis by (auto dest: probe_eventD bundle_eventD)
    next
      case (waited w1 w2 key req resp d wp pub evsV evsR)
      from waited have cd: "createDeployment env req = Inr resp"
        and dd: "d = (case resp of None \<Rightarrow> [] | Some i \<Rightarrow> i)"
        and cs: "calls p env w = evsV @ evsR @ [CreateDeployment req] @ pub @ [WaitFor wp]"
        and pv: "list_all probe_event evsV" and bv: "list_all bundle_event evsR"
        and pb: "pub = (case outputVariable p of
                Some name \<Rightarrow> if name \<noteq> [] then [SetVariable name d] else []
              | None \<Rightarrow> [])"
        by simp_all
      from dd have d: "d = returnedId resp" by (simp add: returnedId_def split: option.splits)
      from s cs pv bv have "SetVariable name v \<in> set pub"
        by (auto dest: probe_eventD bundle_eventD)
      with pb have "outputVariable p = Some name" "v = d"
        by (auto split: option.splits if_splits)
      moreover have "CreateDeployment req \<in> set (calls p env w)" using cs by simp
      ultimately show ?thesis using cd d by blast
    qed
    then show "outputVariable p = Some name"
      and "\<exists>req resp. CreateDeployment req \<in> set (calls p env w) \<and>
          createDeployment env req = Inr resp \<and> v = returnedId resp"
      by simp_all
  qed
next
  fix name wp
  assume a: "outputVariable p = Some name \<and> name \<noteq> [] \<and> WaitFor wp \<in> set (calls p env w)"
  then have "WaitFor wp \<in> set (calls p env w)" by simp
  from wait_call [OF this] a
  obtain pre d where "calls p env w = pre @ [SetVariable name d] @ [WaitFor wp]"
      "wp = setWaiterParams d (timeoutInMins p)"
      "variables (snd (execute p env w)) = (variables w)(name \<mapsto> d)"
    by auto
  then show "\<exists>pre. calls p env w = pre @ [SetVariable name (wp_deploymentId wp), WaitFor wp]"
    and "variables (snd (execute p env w)) name = Some (wp_deploymentId wp)"
    by (simp_all add: setWaiterParams_def)
qed

text \<open>
  C1 as stated (no publication when the wait fails) does not hold: in the run below the wait
  fails, and the identifier \<^verbatim>\<open>d-1\<close> has been published under the name \<^verbatim>\<open>id\<close>.
\<close>

theorem published_although_wait_failed:
  "fst (execute demo_params wait_fails_env demo_world) = Inl (DeploymentFailed ''app'' ''timed out'') \<and>
   SetVariable ''id'' ''d-1'' \<in> set (calls demo_params wait_fails_env demo_world) \<and>
   variables (snd (execute demo_params wait_fails_env demo_world)) ''id'' = Some ''d-1''"
  by code_simp

text \<open>
  Instances of the theorem for C1: the run with the failing wait, the demo run, and the
  demo run with no output variable.
\<close>

theorem output_published_before_wait_witness:
  "(\<exists>pre. calls demo_params wait_fails_env demo_world =
       pre @ [CreateDeployment demo_request, SetVariable ''id'' ''d-1'',
              WaitFor \<lparr>wp_deploymentId = ''d-1'', wp_maxAttempts = Finite 20\<rparr>]) \<and>
   variables (snd (execute demo_params wait_fails_env demo_world)) ''id'' = Some ''d-1'' \<and>
   fst (execute demo_params wait_fails_env demo_world) =
     Inl (DeploymentFailed ''app'' ''timed out'') \<and>
   (\<exists>req resp. CreateDeployment req \<in> set (calls demo_params wait_fails_env demo_world) \<and>
      createDeployment wait_fails_env req = Inr resp \<and>
      waitFor wait_fails_env (setWaiterParams (returnedId resp) (timeoutInMins demo_params)) =
        Some ''timed out'') \<and>
   (\<exists>req resp. CreateDeployment req \<in> set (calls demo_params wait_fails_env demo_world) \<and>
      createDeployment wait_fails_env req = Inr resp \<and> ''d-1'' = returnedId resp) \<and>
   fst (execute demo_params demo_env demo_world) = Inr () \<and>
   (\<exists>req resp. CreateDeployment req \<in> set (calls demo_params demo_env demo_world) \<and>
      createDeployment demo_env req = Inr resp) \<and>
   (\<exists>pre. calls no_output_params demo_env demo_world =
       pre @ [CreateDeployment demo_request,
              WaitFor \<lparr>wp_deploymentId = ''d-1'', wp_maxAttempts = Finite 20\<rparr>]) \<and>
   variables (snd (execute no_output_params demo_env demo_world)) = variables demo_world"
proof -
  let ?W = "\<lparr>wp_deploymentId = ''d-1'', wp_maxAttempts = Finite 20\<rparr>"
  note T = output_published_before_wait [where p = demo_params and env = wait_fails_env
    and w = demo_world]
  note U = output_published_before_wait [where p = demo_params and env = demo_env
    and w = demo_world]
  note V = output_published_before_wait [where p = no_output_params and env = demo_env
    and w = demo_world]
  have rid: "returnedId (Some ''d-1'') = ''d-1''" by (simp add: returnedId_def)
  have wpar: "setWaiterParams ''d-1'' (timeoutInMins demo_params) = ?W"
    "setWaiterParams ''d-1'' (timeoutInMins no_output_params) = ?W"
    by code_simp+
  have h1: "CreateDeployment demo_request \<in> set (calls demo_params wait_fails_env demo_world) \<and>
            createDeployment wait_fails_env demo_request = Inr (Some ''d-1'') \<and>
            outputVariable demo_params = Some ''id'' \<and> ''id'' \<noteq> []"
    by code_simp
  have h2: "fst (execute demo_params wait_fails_env demo_world) =
            Inl (DeploymentFailed ''app'' ''timed out'')"
    by code_simp
  have h3: "SetVariable ''id'' ''d-1'' \<in> set (calls demo_params wait_fails_env demo_world)"
    by code_simp
  have h4: "fst (execute demo_params demo_env demo_world) = Inr ()"
    by code_simp
  have h5: "CreateDeployment demo_request \<in> set (calls no_output_params demo_env demo_world) \<and>
            createDeployment demo_env demo_request = Inr (Some ''d-1'') \<and>
            \<not> truthy (outputVariable no_output_params)"
    by code_simp
  have h6: "outputVariable demo_params = Some ''id'' \<and> ''id'' \<noteq> [] \<and>
            WaitFor ?W \<in> set (calls demo_params wait_fails_env demo_world)"
    by code_simp
  have app: "applicationName demo_params = ''app''" by (simp add: demo_params_def)
  have wf: "waitFor wait_fails_env ?W = Some ''timed out''" by (simp add: wait_fails_env_def)
  from T h1 have c1: "(\<exists>pre. calls demo_params wait_fails_env demo_world =
          pre @ [CreateDeployment demo_request, SetVariable ''id'' (returnedId (Some ''d-1'')),
                 WaitFor (setWaiterParams (returnedId (Some ''d-1'')) (timeoutInMins demo_params))]) \<and>
       variables (snd (execute demo_params wait_fails_env demo_world)) ''id'' =
         Some (returnedId (Some ''d-1''))"
    by blast
  from T h2 have c2: "\<exists>req resp. CreateDeployment req \<in> set (calls demo_params wait_fails_env demo_world) \<and>
      createDeployment wait_fails_env req = Inr resp \<and>
      waitFor wait_fails_env (setWaiterParams (returnedId resp) (timeoutInMins demo_params)) =
        Some ''timed out''"
    by blast
  from T h3 have c3: "\<exists>req resp. CreateDeployment req \<in> set (calls demo_params wait_fails_env demo_world) \<and>
      createDeployment wait_fails_env req = Inr resp \<and> ''d-1'' = returnedId resp"
    by blast
  from U h4 have c4: "\<exists>req resp. CreateDeployment req \<in> set (calls demo_params demo_env demo_world) \<and>
      createDeployment demo_env req = Inr resp"
    by blast
  from V h5 have c5: "(\<exists>pre. calls no_output_params demo_env demo_world =
          pre @ [CreateDeployment demo_request,
                 WaitFor (setWaiterParams (returnedId (Some ''d-1'')) (timeoutInMins no_output_params))]) \<and>
       variables (snd (execute no_output_params demo_env demo_world)) = variables demo_world"
    by blast
  from T h6 have c6: "variables (snd (execute demo_params wait_fails_env demo_world)) ''id'' =
       Some (wp_deploymentId ?W)"
    by blast
  from c1 c2 c3 c4 c5 h2 h4 show ?thesis by (simp only: rid wpar)
qed

text \<open>
  C2. In a run that uploads a bundle: when the path given was a folder and the upload
  succeeds, the archive written for it is deleted right after the upload and is gone at the
  end of the run; when the upload fails, the run ends with the upload's error, nothing is
  deleted and the uploaded file is still there. When the path given is a file, no run
  deletes anything, the files are at the end what they were at the start, and the file
  uploaded (if any) is the one given.
\<close>

theorem archive_deleted_only_after_upload:
  "(\<forall>req. Upload req \<in> set (calls p env w) \<and> upload env req = None \<and>
       fs w (revisionBundle p) = Some Directory \<longrightarrow>
       (\<exists>pre post. calls p env w =
          pre @ [WriteZip (revisionBundle p) (Body req), Upload req, UnlinkSync (Body req)] @ post) \<and>
       fs (snd (execute p env w)) (Body req) = None) \<and>
   (\<forall>req msg. Upload req \<in> set (calls p env w) \<and> upload env req = Some msg \<longrightarrow>
       fst (execute p env w) = Inl (SdkError msg) \<and>
       (\<forall>f. UnlinkSync f \<notin> set (calls p env w)) \<and>
       fs (snd (execute p env w)) (Body req) \<noteq> None) \<and>
   (fs w (revisionBundle p) = Some File \<longrightarrow>
       (\<forall>f. UnlinkSync f \<notin> set (calls p env w)) \<and>
       fs (snd (execute p env w)) = fs w \<and>
       (\<forall>req. Upload req \<in> set (calls p env w) \<longrightarrow> Body req = revisionBundle p))"
proof (intro conjI allI impI)
  fix req
  assume a: "Upload req \<in> set (calls p env w) \<and> upload env req = None \<and>
       fs w (revisionBundle p) = Some Directory"
  then have "Upload req \<in> set (calls p env w)" by simp
  from upload_call [OF this] a
  show "\<exists>pre post. calls p env w =
          pre @ [WriteZip (revisionBundle p) (Body req), Upload req, UnlinkSync (Body req)] @ post"
    and "fs (snd (execute p env w)) (Body req) = None"
    by simp_all
next
  fix req msg
  assume a: "Upload req \<in> set (calls p env w) \<and> upload env req = Some msg"
  then have "Upload req \<in> set (calls p env w)" by simp
  from upload_call [OF this] a
  show "fst (execute p env w) = Inl (SdkError msg)"
    and "fs (snd (execute p env w)) (Body req) \<noteq> None"
    and "\<And>f. UnlinkSync f \<notin> set (calls p env w)"
    by simp_all
next
  assume f: "fs w (revisionBundle p) = Some File"
  then have "fs w (revisionBundle p) \<noteq> Some Directory \<or>
           deploymentRevisionSource p \<noteq> revisionSourceFromWorkspace" by simp
  from kept_when_not_directory [OF this]
  show "\<And>f. UnlinkSync f \<notin> set (calls p env w)" and "fs (snd (execute p env w)) = fs w"
    by simp_all
  fix req
  assume "Upload req \<in> set (calls p env w)"
  from upload_body [OF this f] show "Body req = revisionBundle p" .
qed


text \<open>
  Instances of C2: the demo run, the demo run with a failing upload, and the run on the
  file \<^verbatim>\<open>/b.zip\<close>.
\<close>

theorem archive_deleted_only_after_upload_witness:
  "(\<exists>pre post. calls demo_params demo_env demo_world =
      pre @ [WriteZip ''/src'' ''/tmp/app.v123.zip'', Upload demo_upload,
             UnlinkSync ''/tmp/app.v123.zip''] @ post) \<and>
   fs (snd (execute demo_params demo_env demo_world)) ''/tmp/app.v123.zip'' = None \<and>
   fst (execute demo_params upload_fails_env demo_world) = Inl (SdkError ''denied'') \<and>
   (\<forall>f. UnlinkSync f \<notin> set (calls demo_params upload_fails_env demo_world)) \<and>
   fs (snd (execute demo_params upload_fails_env demo_world)) ''/tmp/app.v123.zip'' \<noteq> None \<and>
   (\<forall>f. UnlinkSync f \<notin> set (calls file_params demo_env demo_world)) \<and>
   fs (snd (execute file_params demo_env demo_world)) = fs demo_world"
proof -
  have h1: "Upload demo_upload \<in> set (calls demo_params demo_env demo_world) \<and>
            upload demo_env demo_upload = None \<and>
            fs demo_world (revisionBundle demo_params) = Some Directory"
    by code_simp
  have h2: "Upload demo_upload \<in> set (calls demo_params upload_fails_env demo_world) \<and>
            upload upload_fails_env demo_upload = Some ''denied''"
    by code_simp
  have h3: "fs demo_world (revisionBundle file_params) = Some File"
    by code_simp
  have b: "Body demo_upload = ''/tmp/app.v123.zip''" "revisionBundle demo_params = ''/src''"
    by (simp_all add: demo_upload_def demo_params_def)
  from archive_deleted_only_after_upload [where p = demo_params and env = demo_env and w = demo_world] h1
  have c1: "(\<exists>pre post. calls demo_params demo_env demo_world =
      pre @ [WriteZip (revisionBundle demo_params) (Body demo_upload), Upload demo_upload,
             UnlinkSync (Body demo_upload)] @ post) \<and>
      fs (snd (execute demo_params demo_env demo_world)) (Body demo_upload) = None"
    by blast
  from archive_deleted_only_after_upload [where p = demo_params and env = upload_fails_env and w = demo_world] h2
  have c2: "fst (execute demo_params upload_fails_env demo_world) = Inl (SdkError ''denied'') \<and>
       (\<forall>f. UnlinkSync f \<notin> set (calls demo_params upload_fails_env demo_world)) \<and>
       fs (snd (execute demo_params upload_fails_env demo_world)) (Body demo_upload) \<noteq> None"
    by blast
  from archive_deleted_only_after_upload [where p = file_params and env = demo_env and w = demo_world] h3
  have c3: "(\<forall>f. UnlinkSync f \<notin> set (calls file_params demo_env demo_world)) \<and>
       fs (snd (execute file_params demo_env demo_world)) = fs demo_world"
    by blast
  from c1 c2 c3 show ?thesis by (simp only: b) simp
qed

text \<open>
  C3. When the probe for the application fails, the run ends with
  \<^verbatim>\<open>ApplicationDoesNotExist\<close> carrying the application's name; the probe is the only call
  made, so nothing is uploaded, no deployment is created and no file is touched.
\<close>

theorem missing_application_stops_run:
  assumes "\<not> getApplication env (applicationName p)"
  shows "fst (execute p env w) = Inl (ApplicationDoesNotExist (applicationName p)) \<and>
         calls p env w = [GetApplication (applicationName p)] \<and>
         (\<forall>req. Upload req \<notin> set (calls p env w)) \<and>
         (\<forall>req. CreateDeployment req \<notin> set (calls p env w)) \<and>
         fs (snd (execute p env w)) = fs w"
  using assms
  by (simp add: calls_def execute_def verifyResourcesExist_def emit_def Let_def)

text \<open>An instance of C3: the demo run against a service that does not know the application.\<close>

theorem missing_application_stops_run_witness:
  "\<not> getApplication no_app_env (applicationName demo_params) \<and>
   fst (execute demo_params no_app_env demo_world) = Inl (ApplicationDoesNotExist ''app'') \<and>
   calls demo_params no_app_env demo_world = [GetApplication ''app'']"
proof -
  have h: "\<not> getApplication no_app_env (applicationName demo_params)"
    by (simp add: no_app_env_def)
  from missing_application_stops_run [OF h, of demo_world] h show ?thesis
    by (simp add: demo_params_def)
qed

text \<open>
  C4. The revision source alone selects the path. In the \<^verbatim>\<open>switch\<close> of \<open>execute\<close>, from any
  world: the workspace source is \<^verbatim>\<open>uploadBundle\<close>; the S3 source returns the bundle key
  given and leaves the world as it is; any other source throws \<^verbatim>\<open>UnknownRevisionSource\<close>.
  For the whole run: with the S3 source no run looks at the bundle path, writes an archive,
  uploads or deletes anything, whatever the files are, and the files stay as they were;
  every deployment it creates is for the bucket and the key given, and it creates one when
  the probes succeed. With the workspace source, a run whose probes succeed enters
  \<^verbatim>\<open>uploadBundle\<close> (its first call, \<^verbatim>\<open>tl.stats\<close> on the bundle path, is made), and every
  deployment it creates is for the key of an upload that succeeded. With any other source,
  a run whose probes succeed ends with \<^verbatim>\<open>UnknownRevisionSource\<close>, having made the probes
  only.
\<close>

theorem revision_source_selects_path:
  "((deploymentRevisionSource p = revisionSourceFromWorkspace \<longrightarrow>
       resolveBundleKey p env w' = uploadBundle p env w') \<and>
    (deploymentRevisionSource p = revisionSourceFromS3 \<longrightarrow>
       resolveBundleKey p env w' = (Inr (bundleKey p), w')) \<and>
    (deploymentRevisionSource p \<noteq> revisionSourceFromWorkspace \<and>
     deploymentRevisionSource p \<noteq> revisionSourceFromS3 \<longrightarrow>
       resolveBundleKey p env w' =
         (Inl (UnknownRevisionSource (deploymentRevisionSource p)), w'))) \<and>
   ((deploymentRevisionSource p = revisionSourceFromS3 \<longrightarrow>
      (\<forall>f. Stats f \<notin> set (calls p env w)) \<and>
      (\<forall>d a. WriteZip d a \<notin> set (calls p env w)) \<and>
      (\<forall>r. Upload r \<notin> set (calls p env w)) \<and>
      (\<forall>f. UnlinkSync f \<notin> set (calls p env w)) \<and>
      fs (snd (execute p env w)) = fs w \<and>
      (\<forall>r. CreateDeployment r \<in> set (calls p env w) \<longrightarrow>
         s3_bucket (cd_s3Location r) = bucketName p \<and> s3_key (cd_s3Location r) = bundleKey p) \<and>
      (probesSucceed p env \<longrightarrow> (\<exists>r. CreateDeployment r \<in> set (calls p env w)))) \<and>
   (deploymentRevisionSource p = revisionSourceFromWorkspace \<and> probesSucceed p env \<longrightarrow>
      Stats (revisionBundle p) \<in> set (calls p env w) \<and>
      (\<forall>r. CreateDeployment r \<in> set (calls p env w) \<longrightarrow>
         (\<exists>up. Upload up \<in> set (calls p env w) \<and> upload env up = None \<and>
            s3_key (cd_s3Location r) = Key up))) \<and>
   (deploymentRevisionSource p \<noteq> revisionSourceFromWorkspace \<and>
    deploymentRevisionSource p \<noteq> revisionSourceFromS3 \<and> probesSucceed p env \<longrightarrow>
      fst (execute p env w) = Inl (UnknownRevisionSource (deploymentRevisionSource p)) \<and>
      list_all probe_event (calls p env w) \<and>
      fs (snd (execute p env w)) = fs w))"
proof -
  have "(deploymentRevisionSource p = revisionSourceFromWorkspace \<longrightarrow>
       resolveBundleKey p env w' = uploadBundle p env w') \<and>
    (deploymentRevisionSource p = revisionSourceFromS3 \<longrightarrow>
       resolveBundleKey p env w' = (Inr (bundleKey p), w')) \<and>
    (deploymentRevisionSource p \<noteq> revisionSourceFromWorkspace \<and>
     deploymentRevisionSource p \<noteq> revisionSourceFromS3 \<longrightarrow>
       resolveBundleKey p env w' =
         (Inl (UnknownRevisionSource (deploymentRevisionSource p)), w'))"
    using sources_distinct by (simp add: resolveBundleKey_def)
  then show ?thesis using revision_paths_of_run [of p env w] by (rule conjI)
qed

text \<open>
  Instances of C4: the demo run with the source \<^verbatim>\<open>s3\<close>, with the source \<^verbatim>\<open>workspace\<close>
  and with the source \<^verbatim>\<open>git\<close>.
\<close>

theorem revision_source_selects_path_witness:
  "(\<forall>d a. WriteZip d a \<notin> set (calls s3_params demo_env demo_world)) \<and>
   (\<forall>r. Upload r \<notin> set (calls s3_params demo_env demo_world)) \<and>
   (\<forall>f. UnlinkSync f \<notin> set (calls s3_params demo_env demo_world)) \<and>
   fs (snd (execute s3_params demo_env demo_world)) = fs demo_world \<and>
   (\<exists>r. CreateDeployment r \<in> set (calls s3_params demo_env demo_world) \<and>
        s3_bucket (cd_s3Location r) = ''bkt'' \<and> s3_key (cd_s3Location r) = ''bundle.tar'') \<and>
   Stats ''/src'' \<in> set (calls demo_params demo_env demo_world) \<and>
   (\<exists>up. Upload up \<in> set (calls demo_params demo_env demo_world) \<and>
        s3_key (cd_s3Location demo_request) = Key up) \<and>
   fst (execute git_params demo_env demo_world) = Inl (UnknownRevisionSource ''git'') \<and>
   resolveBundleKey git_params demo_env demo_world =
     (Inl (UnknownRevisionSource ''git''), demo_world) \<and>
   resolveBundleKey s3_params demo_env demo_world = (Inr ''bundle.tar'', demo_world) \<and>
   resolveBundleKey demo_params demo_env demo_world = uploadBundle demo_params demo_env demo_world"
proof -
  have s3: "deploymentRevisionSource s3_params = revisionSourceFromS3"
    "bucketName s3_params = ''bkt''" "bundleKey s3_params = ''bundle.tar''"
    by (simp_all add: s3_params_def demo_params_def revisionSourceFromS3_def)
  have ws: "deploymentRevisionSource demo_params = revisionSourceFromWorkspace"
    "revisionBundle demo_params = ''/src''"
    by (simp_all add: demo_params_def revisionSourceFromWorkspace_def)
  have git: "deploymentRevisionSource git_params \<noteq> revisionSourceFromWorkspace"
    "deploymentRevisionSource git_params \<noteq> revisionSourceFromS3"
    "deploymentRevisionSource git_params = ''git''"
    by (simp_all add: git_params_def demo_params_def revisionSourceFromWorkspace_def
          revisionSourceFromS3_def)
  have ok: "probesSucceed s3_params demo_env" "probesSucceed demo_params demo_env"
    "probesSucceed git_params demo_env"
    by (simp_all add: probesSucceed_def demo_env_def)
  have d: "CreateDeployment demo_request \<in> set (calls demo_params demo_env demo_world)"
    by code_simp
  note A = revision_source_selects_path [where p = s3_params and env = demo_env and w = demo_world and w' = demo_world]
  note B = revision_source_selects_path [where p = demo_params and env = demo_env and w = demo_world and w' = demo_world]
  note C = revision_source_selects_path [where p = git_params and env = demo_env and w = demo_world and w' = demo_world]
  from A s3(1) ok(1)
  have a: "(\<forall>d a. WriteZip d a \<notin> set (calls s3_params demo_env demo_world)) \<and>
   (\<forall>r. Upload r \<notin> set (calls s3_params demo_env demo_world)) \<and>
   (\<forall>f. UnlinkSync f \<notin> set (calls s3_params demo_env demo_world)) \<and>
   fs (snd (execute s3_params demo_env demo_world)) = fs demo_world \<and>
   (\<exists>r. CreateDeployment r \<in> set (calls s3_params demo_env demo_world) \<and>
        s3_bucket (cd_s3Location r) = bucketName s3_params \<and>
        s3_key (cd_s3Location r) = bundleKey s3_params)"
    by blast
  from B ws(1) ok(2)
  have b: "Stats (revisionBundle demo_params) \<in> set (calls demo_params demo_env demo_world) \<and>
      (\<forall>r. CreateDeployment r \<in> set (calls demo_params demo_env demo_world) \<longrightarrow>
         (\<exists>up. Upload up \<in> set (calls demo_params demo_env demo_world) \<and>
            upload demo_env up = None \<and> s3_key (cd_s3Location r) = Key up))"
    by blast
  with d have b2: "\<exists>up. Upload up \<in> set (calls demo_params demo_env demo_world) \<and>
        s3_key (cd_s3Location demo_request) = Key up"
    by blast
  from C git(1,2) ok(3)
  have c: "fst (execute git_params demo_env demo_world) =
             Inl (UnknownRevisionSource (deploymentRevisionSource git_params))"
    by blast
  from C git(1,2)
  have sw1: "resolveBundleKey git_params demo_env demo_world =
     (Inl (UnknownRevisionSource (deploymentRevisionSource git_params)), demo_world)"
    by blast
  from A s3(1)
  have sw2: "resolveBundleKey s3_params demo_env demo_world =
     (Inr (bundleKey s3_params), demo_world)"
    by blast
  from B ws(1)
  have sw3: "resolveBundleKey demo_params demo_env demo_world =
     uploadBundle demo_params demo_env demo_world"
    by blast
  from a b b2 c sw1 sw2 sw3 show ?thesis by (simp only: s3 ws git) simp
qed

text \<open>
  C5. The \<^verbatim>\<open>bundleType\<close> of a deployment is read off the last segment (the basename) of its
  key: when the segment has no dot the type is \<^verbatim>\<open>zip\<close>; otherwise, with the segment split
  at its last dot, the type is what follows the dot, in lower case, unless nothing follows
  the dot or nothing comes before it, when the type is \<^verbatim>\<open>zip\<close>. In terms of
  \<^verbatim>\<open>path.extname\<close>: the extension without its dot, in lower case, when the extension has
  more than the dot, and \<^verbatim>\<open>zip\<close> otherwise. The lower case is the engine's
  \<^verbatim>\<open>toLowerCase\<close>; on an extension of ASCII characters it replaces \<^verbatim>\<open>A\<close> to \<^verbatim>\<open>Z\<close> by
  \<^verbatim>\<open>a\<close> to \<^verbatim>\<open>z\<close> and keeps the rest, so that the key \<^verbatim>\<open>Bundle.TAR\<close> has the type
  \<^verbatim>\<open>tar\<close>.
\<close>

theorem bundle_type_from_extension:
  assumes "CreateDeployment req \<in> set (calls p env w)"
  shows "(CHR ''.'' \<notin> set (basename (platform env) (s3_key (cd_s3Location req))) \<longrightarrow>
            s3_bundleType (cd_s3Location req) = ''zip'') \<and>
         (\<forall>stem ext. basename (platform env) (s3_key (cd_s3Location req)) = stem @ CHR ''.'' # ext \<and>
              CHR ''.'' \<notin> set ext \<longrightarrow>
            s3_bundleType (cd_s3Location req) =
              (if stem = [] \<or> ext = [] then ''zip'' else toLowerCase env ext)) \<and>
         s3_bundleType (cd_s3Location req) =
           (if length (extname (platform env) (s3_key (cd_s3Location req))) \<le> 1 then ''zip''
            else toLowerCase env (tl (extname (platform env) (s3_key (cd_s3Location req))))) \<and>
         (\<forall>stem ext. lowersAscii env \<and>
              basename (platform env) (s3_key (cd_s3Location req)) = stem @ CHR ''.'' # ext \<and>
              CHR ''.'' \<notin> set ext \<and> stem \<noteq> [] \<and> ext \<noteq> [] \<and> list_all isAscii ext \<longrightarrow>
            s3_bundleType (cd_s3Location req) = asciiLowerCase ext) \<and>
         (lowersAscii env \<and> s3_key (cd_s3Location req) = ''Bundle.TAR'' \<longrightarrow>
            s3_bundleType (cd_s3Location req) = ''tar'')"
proof -
  from submit_call [OF assms]
  have t: "s3_bundleType (cd_s3Location req) =
             archiveTypeOf env (s3_key (cd_s3Location req))" by simp
  show ?thesis
    unfolding t
  proof (intro conjI allI impI)
    assume "CHR ''.'' \<notin> set (basename (platform env) (s3_key (cd_s3Location req)))"
    then show "archiveTypeOf env (s3_key (cd_s3Location req)) = ''zip''"
      by (rule archiveTypeOf_no_dot)
  next
    fix stem ext
    assume "basename (platform env) (s3_key (cd_s3Location req)) = stem @ CHR ''.'' # ext \<and>
              CHR ''.'' \<notin> set ext"
    then have "basename (platform env) (s3_key (cd_s3Location req)) = stem @ CHR ''.'' # ext"
      "CHR ''.'' \<notin> set ext" by simp_all
    then show "archiveTypeOf env (s3_key (cd_s3Location req)) =
              (if stem = [] \<or> ext = [] then ''zip'' else toLowerCase env ext)"
      by (rule archiveTypeOf_last_dot)
  next
    show "archiveTypeOf env (s3_key (cd_s3Location req)) =
           (if length (extname (platform env) (s3_key (cd_s3Location req))) \<le> 1 then ''zip''
            else toLowerCase env (tl (extname (platform env) (s3_key (cd_s3Location req)))))"
      by (rule archiveTypeOf_extname)
  next
    fix stem ext
    assume a: "lowersAscii env \<and>
              basename (platform env) (s3_key (cd_s3Location req)) = stem @ CHR ''.'' # ext \<and>
              CHR ''.'' \<notin> set ext \<and> stem \<noteq> [] \<and> ext \<noteq> [] \<and> list_all isAscii ext"
    then have b: "basename (platform env) (s3_key (cd_s3Location req)) = stem @ CHR ''.'' # ext"
      "CHR ''.'' \<notin> set ext" and n: "stem \<noteq> []" "ext \<noteq> []"
      and l: "lowersAscii env" "list_all isAscii ext" by simp_all
    from archiveTypeOf_last_dot [OF b] n
    have "archiveTypeOf env (s3_key (cd_s3Location req)) = toLowerCase env ext" by simp
    with lowersAsciiD [OF l]
    show "archiveTypeOf env (s3_key (cd_s3Location req)) = asciiLowerCase ext" by simp
  next
    assume a: "lowersAscii env \<and> s3_key (cd_s3Location req) = ''Bundle.TAR''"
    then have l: "lowersAscii env" and k: "s3_key (cd_s3Location req) = ''Bundle.TAR''"
      by simp_all
    have d: "CHR ''.'' \<notin> set ''TAR''" by simp
    have asc: "list_all isAscii ''TAR''" by code_simp
    have low: "asciiLowerCase ''TAR'' = ''tar''" by code_simp
    from archiveTypeOf_last_dot [OF basename_upper_example d, of env]
    have "archiveTypeOf env ''Bundle.TAR'' = toLowerCase env ''TAR''" by simp
    with lowersAsciiD [OF l asc] low
    show "archiveTypeOf env (s3_key (cd_s3Location req)) = ''tar''" unfolding k by simp
  qed
qed

text \<open>
  Instances of C5: the key \<^verbatim>\<open>bundle.tar\<close> gives the type \<^verbatim>\<open>tar\<close>, the key \<^verbatim>\<open>bundle\<close>
  the type \<^verbatim>\<open>zip\<close>, the key \<^verbatim>\<open>Bundle.TAR\<close> the type \<^verbatim>\<open>tar\<close>.
\<close>

theorem bundle_type_from_extension_witness:
  "CreateDeployment tar_request \<in> set (calls s3_params demo_env demo_world) \<and>
   basename Posix ''bundle.tar'' = ''bundle'' @ CHR ''.'' # ''tar'' \<and>
   s3_bundleType (cd_s3Location tar_request) = ''tar'' \<and>
   CreateDeployment plain_request \<in> set (calls plain_key_params demo_env demo_world) \<and>
   CHR ''.'' \<notin> set (basename Posix ''bundle'') \<and>
   s3_bundleType (cd_s3Location plain_request) = ''zip'' \<and>
   CreateDeployment upper_request \<in> set (calls upper_key_params demo_env demo_world) \<and>
   lowersAscii demo_env \<and>
   s3_key (cd_s3Location upper_request) = ''Bundle.TAR'' \<and>
   basename Posix ''Bundle.TAR'' = ''Bundle'' @ CHR ''.'' # ''TAR'' \<and>
   asciiLowerCase ''TAR'' = ''tar'' \<and>
   s3_bundleType (cd_s3Location upper_request) = ''tar''"
proof -
  have h1: "CreateDeployment tar_request \<in> set (calls s3_params demo_env demo_world)"
    by code_simp
  have h2: "CreateDeployment plain_request \<in> set (calls plain_key_params demo_env demo_world)"
    by code_simp
  have h3: "CreateDeployment upper_request \<in> set (calls upper_key_params demo_env demo_world)"
    by code_simp
  have pf: "platform demo_env = Posix" by (simp add: demo_env_def)
  have la: "lowersAscii demo_env" by (simp add: lowersAscii_def demo_env_def)
  have k1: "s3_key (cd_s3Location tar_request) = ''bundle.tar''"
    and k2: "s3_key (cd_s3Location plain_request) = ''bundle''"
    and k3: "s3_key (cd_s3Location upper_request) = ''Bundle.TAR''"
    by (simp_all add: tar_request_def plain_request_def upper_request_def)
  have b1: "basename Posix ''bundle.tar'' = ''bundle'' @ CHR ''.'' # ''tar'' \<and> CHR ''.'' \<notin> set ''tar''"
    by code_simp
  have b2: "CHR ''.'' \<notin> set (basename Posix ''bundle'')" by code_simp
  have b3: "basename Posix ''Bundle.TAR'' = ''Bundle'' @ CHR ''.'' # ''TAR'' \<and> CHR ''.'' \<notin> set ''TAR''"
    by code_simp
  have a1: "list_all isAscii ''tar''" and a3: "list_all isAscii ''TAR''" by code_simp+
  have l1: "asciiLowerCase ''tar'' = ''tar''" and l3: "asciiLowerCase ''TAR'' = ''tar''"
    by code_simp+
  from bundle_type_from_extension [OF h1] la b1 a1
  have c1: "s3_bundleType (cd_s3Location tar_request) = asciiLowerCase ''tar''"
    unfolding pf k1 by blast
  from bundle_type_from_extension [OF h2] b2
  have c2: "s3_bundleType (cd_s3Location plain_request) = ''zip''"
    unfolding pf k2 by blast
  from bundle_type_from_extension [OF h3] la b3 a3
  have c3: "s3_bundleType (cd_s3Location upper_request) = asciiLowerCase ''TAR''"
    unfolding pf k3 by blast
  from bundle_type_from_extension [OF h3] la k3
  have c4: "s3_bundleType (cd_s3Location upper_request) = ''tar''"
    by blast
  from h1 h2 h3 la k3 b1 b2 b3 c1 c2 c3 c4 l1 l3 show ?thesis by simp
qed

text \<open>
  C6. The key of an upload is the basename of the uploaded archive when no prefix is
  configured, and the prefix, a slash and the basename when a (non-empty) prefix is. After
  a successful upload this key is the one the deployment is created for.
\<close>

theorem object_key_of_upload:
  assumes "Upload req \<in> set (calls p env w)"
  shows "(bundlePrefix p = None \<longrightarrow> Key req = basename (platform env) (Body req)) \<and>
         (\<forall>pre. bundlePrefix p = Some pre \<and> pre \<noteq> [] \<longrightarrow>
            Key req = pre @ ''/'' @ basename (platform env) (Body req)) \<and>
         (upload env req = None \<longrightarrow>
            (\<forall>r. CreateDeployment r \<in> set (calls p env w) \<longrightarrow>
               s3_key (cd_s3Location r) = Key req))"
proof -
  from upload_call [OF assms]
  have k: "Key req = bundleObjectKey (platform env) (bundlePrefix p) (Body req)"
    by simp
  from upload_call [OF assms]
  have d: "upload env req = None \<longrightarrow>
            (\<forall>r. CreateDeployment r \<in> set (calls p env w) \<longrightarrow>
               s3_key (cd_s3Location r) = Key req)"
    by (auto split: option.splits)
  from k have "bundlePrefix p = None \<longrightarrow> Key req = basename (platform env) (Body req)"
    by (simp add: bundleObjectKey_simps)
  moreover from k have "\<forall>pre. bundlePrefix p = Some pre \<and> pre \<noteq> [] \<longrightarrow>
            Key req = pre @ ''/'' @ basename (platform env) (Body req)"
    by (simp add: bundleObjectKey_simps)
  ultimately show ?thesis using d by blast
qed

text \<open>
  Instances of C6: with the prefix \<^verbatim>\<open>p\<close> the archive \<^verbatim>\<open>/tmp/app.v123.zip\<close> is uploaded
  as \<^verbatim>\<open>p/app.v123.zip\<close>, without a prefix as \<^verbatim>\<open>app.v123.zip\<close>.
\<close>

theorem object_key_of_upload_witness:
  "Upload \<lparr>Bucket = ''bkt'', Key = ''p/app.v123.zip'', Body = ''/tmp/app.v123.zip'', ACL = None\<rparr>
     \<in> set (calls demo_params demo_env demo_world) \<and>
   Upload \<lparr>Bucket = ''bkt'', Key = ''app.v123.zip'', Body = ''/tmp/app.v123.zip'', ACL = None\<rparr>
     \<in> set (calls no_prefix_params demo_env demo_world) \<and>
   basename Posix ''/tmp/app.v123.zip'' = ''app.v123.zip'' \<and>
   s3_key (cd_s3Location demo_request) = ''p/app.v123.zip''"
proof -
  let ?U = "\<lparr>Bucket = ''bkt'', Key = ''p/app.v123.zip'', Body = ''/tmp/app.v123.zip'', ACL = None\<rparr>"
  let ?V = "\<lparr>Bucket = ''bkt'', Key = ''app.v123.zip'', Body = ''/tmp/app.v123.zip'', ACL = None\<rparr>"
  have h1: "Upload ?U \<in> set (calls demo_params demo_env demo_world)" by code_simp
  have h2: "Upload ?V \<in> set (calls no_prefix_params demo_env demo_world)" by code_simp
  have p1: "bundlePrefix demo_params = Some ''p'' \<and> ''p'' \<noteq> []"
    by (simp add: demo_params_def)
  have p2: "bundlePrefix no_prefix_params = None"
    by (simp add: no_prefix_params_def demo_params_def)
  have u: "upload demo_env ?U = None" by (simp add: demo_env_def)
  have d: "CreateDeployment demo_request \<in> set (calls demo_params demo_env demo_world)"
    by code_simp
  have pf: "platform demo_env = Posix" by (simp add: demo_env_def)
  from object_key_of_upload [OF h1] p1 have "Key ?U = ''p'' @ ''/'' @ basename (platform demo_env) (Body ?U)"
    by blast
  then have b: "basename Posix ''/tmp/app.v123.zip'' = ''app.v123.zip''" by (simp add: pf)
  from object_key_of_upload [OF h2] p2 have "Key ?V = basename (platform demo_env) (Body ?V)"
    by blast
  from object_key_of_upload [OF h1] u d have "s3_key (cd_s3Location demo_request) = Key ?U"
    by blast
  with h1 h2 b show ?thesis by simp
qed

text \<open>
  C7 (as amended). The waiter is called with
  \<open>maxAttempts = Math.round((timeoutInMins * 60) / 15)\<close>, computed in double precision. For a
  timeout \<open>k / 2\<^sup>j\<close> with \<open>\<bar>k\<bar> * 60 < 2\<^sup>5\<^sup>3\<close> and \<open>j \<le> 1074\<close> the product and the quotient are
  computed exactly, and the number of attempts is \<open>timeoutInMins * 60 / 15\<close> rounded to the
  nearest integer, a half rounded up (a negative timeout that rounds to zero gives the
  negative zero). So a whole number of minutes up to 150119987579016 gives four attempts
  for each minute, and 5 minutes give 20 attempts.
\<close>

theorem waiter_attempts_from_timeout:
  assumes "WaitFor wp \<in> set (calls p env w)"
  shows "wp_maxAttempts wp =
           Math_round (num_divide (num_times (timeoutInMins p) (Finite 60)) (Finite 15)) \<and>
         (\<forall>(k::int) (j::nat). timeoutInMins p = Finite (of_int k / 2 ^ j) \<and>
              \<bar>k\<bar> * 60 < 2 ^ 53 \<and> j \<le> 1074 \<longrightarrow>
            wp_maxAttempts wp =
              (if specMaxAttempts (of_int k / 2 ^ j) = 0 \<and> of_int k / 2 ^ j < (0::rat)
               then NegZero
               else Finite (of_int (specMaxAttempts (of_int k / 2 ^ j))))) \<and>
         (\<forall>m::int. timeoutInMins p = Finite (of_int m) \<and> \<bar>m\<bar> \<le> 150119987579016 \<longrightarrow>
            wp_maxAttempts wp = Finite (of_int (4 * m)) \<and>
            specMaxAttempts (of_int m) = 4 * m) \<and>
         (timeoutInMins p = Finite 5 \<longrightarrow> wp_maxAttempts wp = Finite 20)"
proof -
  from wait_call [OF assms] obtain d where "wp = setWaiterParams d (timeoutInMins p)"
    by blast
  then have m: "wp_maxAttempts wp =
      Math_round (num_divide (num_times (timeoutInMins p) (Finite 60)) (Finite 15))"
    by (simp add: setWaiterParams_def)
  have a: "\<forall>(k::int) (j::nat). timeoutInMins p = Finite (of_int k / 2 ^ j) \<and>
              \<bar>k\<bar> * 60 < 2 ^ 53 \<and> j \<le> 1074 \<longrightarrow>
            wp_maxAttempts wp =
              (if specMaxAttempts (of_int k / 2 ^ j) = 0 \<and> of_int k / 2 ^ j < (0::rat)
               then NegZero
               else Finite (of_int (specMaxAttempts (of_int k / 2 ^ j))))"
  proof (intro allI impI)
    fix k :: int and j :: nat
    assume h: "timeoutInMins p = Finite (of_int k / 2 ^ j) \<and> \<bar>k\<bar> * 60 < 2 ^ 53 \<and> j \<le> 1074"
    then have t: "timeoutInMins p = Finite (of_int k / 2 ^ j)"
      and kk: "\<bar>k\<bar> * 60 < 2 ^ 53" and jj: "j \<le> 1074" by simp_all
    show "wp_maxAttempts wp =
              (if specMaxAttempts (of_int k / 2 ^ j) = 0 \<and> of_int k / 2 ^ j < (0::rat)
               then NegZero
               else Finite (of_int (specMaxAttempts (of_int k / 2 ^ j))))"
      unfolding m t by (rule attempts_exact [OF kk jj])
  qed
  have b: "\<forall>m::int. timeoutInMins p = Finite (of_int m) \<and> \<bar>m\<bar> \<le> 150119987579016 \<longrightarrow>
            wp_maxAttempts wp = Finite (of_int (4 * m)) \<and>
            specMaxAttempts (of_int m) = 4 * m"
  proof (intro allI impI)
    fix n :: int
    assume h: "timeoutInMins p = Finite (of_int n) \<and> \<bar>n\<bar> \<le> 150119987579016"
    then have t: "timeoutInMins p = Finite (of_int n)" and r: "\<bar>n\<bar> \<le> 150119987579016"
      by simp_all
    have "wp_maxAttempts wp = Finite (of_int (4 * n))"
      unfolding m t by (rule attempts_whole [OF r])
    then show "wp_maxAttempts wp = Finite (of_int (4 * n)) \<and>
            specMaxAttempts (of_int n) = 4 * n"
      using specMaxAttempts_whole [of n] by simp
  qed
  have c: "timeoutInMins p = Finite 5 \<longrightarrow> wp_maxAttempts wp = Finite 20"
  proof
    assume "timeoutInMins p = Finite 5"
    then have "timeoutInMins p = Finite (of_int 5) \<and> \<bar>5::int\<bar> \<le> 150119987579016" by simp
    with b have "wp_maxAttempts wp = Finite (of_int (4 * 5))" by blast
    then show "wp_maxAttempts wp = Finite 20" by simp
  qed
  from m a b c show ?thesis by (intro conjI)
qed

text \<open>
  C7 as stated (for every invocation the attempts are \<open>round(timeoutMinutes * 60 / 15)\<close>)
  does not hold of every timeout: with 600479950316069 minutes the product
  \<open>timeoutInMins * 60\<close> is not a double, and the run below waits 2401919801264277
  attempts, where \<open>600479950316069 * 60 / 15\<close> is 2401919801264276.
\<close>

theorem attempts_differ_for_huge_timeout:
  "WaitFor \<lparr>wp_deploymentId = ''d-1'', wp_maxAttempts = Finite 2401919801264277\<rparr>
     \<in> set (calls huge_params demo_env demo_world) \<and>
   timeoutInMins huge_params = Finite 600479950316069 \<and>
   specMaxAttempts 600479950316069 = 2401919801264276"
  by code_simp

text \<open>
  Instances of the theorem for C7: the demo run has a timeout of 5 minutes and waits 20
  attempts; a timeout of \<open>43/16\<close> minutes gives \<open>10.75\<close>, so 11 attempts; a timeout of
  \<open>21/8\<close> minutes gives \<open>10.5\<close>, so 11 attempts.
\<close>

theorem waiter_attempts_from_timeout_witness:
  "WaitFor \<lparr>wp_deploymentId = ''d-1'', wp_maxAttempts = Finite 20\<rparr>
     \<in> set (calls demo_params demo_env demo_world) \<and>
   timeoutInMins demo_params = Finite 5 \<and>
   specMaxAttempts 5 = 20 \<and>
   WaitFor \<lparr>wp_deploymentId = ''d-1'', wp_maxAttempts = Finite 11\<rparr>
     \<in> set (calls fraction_params demo_env demo_world) \<and>
   timeoutInMins fraction_params = Finite (43 / 16) \<and>
   specMaxAttempts (43 / 16) = 11 \<and>
   WaitFor \<lparr>wp_deploymentId = ''d-1'', wp_maxAttempts = Finite 11\<rparr>
     \<in> set (calls half_params demo_env demo_world) \<and>
   timeoutInMins half_params = Finite (21 / 8) \<and>
   specMaxAttempts (21 / 8) = 11"
proof -
  let ?W = "\<lparr>wp_deploymentId = ''d-1'', wp_maxAttempts = Finite 20\<rparr>"
  let ?V = "\<lparr>wp_deploymentId = ''d-1'', wp_maxAttempts = Finite 11\<rparr>"
  have h1: "WaitFor ?W \<in> set (calls demo_params demo_env demo_world)" by code_simp
  have h2: "WaitFor ?V \<in> set (calls fraction_params demo_env demo_world)" by code_simp
  have h3: "WaitFor ?V \<in> set (calls half_params demo_env demo_world)" by code_simp
  have t1: "timeoutInMins demo_params = Finite 5" by (simp add: demo_params_def)
  have t2: "timeoutInMins fraction_params = Finite (43 / 16)"
    by (simp add: fraction_params_def)
  have t3: "timeoutInMins half_params = Finite (21 / 8)" by (simp add: half_params_def)
  have e2: "(43 / 16 :: rat) = of_int 43 / 2 ^ (4::nat)"
    and e3: "(21 / 8 :: rat) = of_int 21 / 2 ^ (3::nat)" by simp_all
  have r2: "\<bar>43::int\<bar> * 60 < 2 ^ 53 \<and> (4::nat) \<le> 1074"
    and r3: "\<bar>21::int\<bar> * 60 < 2 ^ 53 \<and> (3::nat) \<le> 1074" by simp_all
  have s2: "specMaxAttempts (43 / 16) = 11" and s3: "specMaxAttempts (21 / 8) = 11"
    by code_simp+
  have n2: "\<not> (specMaxAttempts (43 / 16) = 0 \<and> (43 / 16 :: rat) < 0)"
    and n3: "\<not> (specMaxAttempts (21 / 8) = 0 \<and> (21 / 8 :: rat) < 0)" by simp_all
  from waiter_attempts_from_timeout [OF h1] t1
  have c1: "wp_maxAttempts ?W = Finite 20" by blast
  have "timeoutInMins demo_params = Finite (of_int 5) \<and> \<bar>5::int\<bar> \<le> 150119987579016"
    using t1 by simp
  with waiter_attempts_from_timeout [OF h1]
  have c1': "specMaxAttempts (of_int 5) = 4 * 5" by blast
  from t2 r2 have "timeoutInMins fraction_params = Finite (of_int 43 / 2 ^ (4::nat)) \<and>
      \<bar>43::int\<bar> * 60 < 2 ^ 53 \<and> (4::nat) \<le> 1074" unfolding e2 by simp
  with waiter_attempts_from_timeout [OF h2]
  have "wp_maxAttempts ?V =
          (if specMaxAttempts (of_int 43 / 2 ^ (4::nat)) = 0 \<and> of_int 43 / 2 ^ (4::nat) < (0::rat)
           then NegZero
           else Finite (of_int (specMaxAttempts (of_int 43 / 2 ^ (4::nat)))))"
    by blast
  then have c2: "wp_maxAttempts ?V = Finite (of_int (specMaxAttempts (43 / 16)))"
    unfolding e2 [symmetric] if_not_P [OF n2] .
  from t3 r3 have "timeoutInMins half_params = Finite (of_int 21 / 2 ^ (3::nat)) \<and>
      \<bar>21::int\<bar> * 60 < 2 ^ 53 \<and> (3::nat) \<le> 1074" unfolding e3 by simp
  with waiter_attempts_from_timeout [OF h3]
  have "wp_maxAttempts ?V =
          (if specMaxAttempts (of_int 21 / 2 ^ (3::nat)) = 0 \<and> of_int 21 / 2 ^ (3::nat) < (0::rat)
           then NegZero
           else Finite (of_int (specMaxAttempts (of_int 21 / 2 ^ (3::nat)))))"
    by blast
  then have c3: "wp_maxAttempts ?V = Finite (of_int (specMaxAttempts (21 / 8)))"
    unfolding e3 [symmetric] if_not_P [OF n3] .
  from c2 have d2: "specMaxAttempts (43 / 16) = 11" by simp
  from c3 have d3: "specMaxAttempts (21 / 8) = 11" by simp
  from c1' have d1: "specMaxAttempts 5 = 20" by simp
  from h1 h2 h3 t1 t2 t3 d1 d2 d3 show ?thesis by (intro conjI)
qed

text \<open>
  C8. When \<^verbatim>\<open>createDeployment\<close> succeeds and its response has no \<^verbatim>\<open>deploymentId\<close>, the
  run goes on with the empty string as the identifier: the wait is the last call, made for
  the empty identifier (after the output variable, if any, was set to it), and the run
  ends as the wait does.
\<close>

theorem missing_deployment_id_continues:
  assumes "CreateDeployment req \<in> set (calls p env w)" "createDeployment env req = Inr None"
  shows "(\<exists>pre pub. calls p env w =
            pre @ [CreateDeployment req] @ pub @ [WaitFor (setWaiterParams [] (timeoutInMins p))] \<and>
            (\<forall>e \<in> set pub. \<exists>n. e = SetVariable n [])) \<and>
         fst (execute p env w) =
           (case waitFor env (setWaiterParams [] (timeoutInMins p)) of
              Some msg \<Rightarrow> Inl (DeploymentFailed (applicationName p) msg)
            | None \<Rightarrow> Inr ())"
proof -
  from submit_call [OF assms(1)] assms(2)
  have c: "\<exists>pre pub. calls p env w =
            pre @ [CreateDeployment req] @ pub @ [WaitFor (setWaiterParams [] (timeoutInMins p))] \<and>
            (\<forall>e \<in> set pub. \<exists>n. e = SetVariable n [])"
    by simp
  then have "WaitFor (setWaiterParams [] (timeoutInMins p)) \<in> set (calls p env w)" by auto
  from wait_call [OF this] c show ?thesis by blast
qed

text \<open>An instance of C8: the demo run against a service that answers without an identifier.\<close>

theorem missing_deployment_id_continues_witness:
  "createDeployment no_id_env demo_request = Inr None \<and>
   (\<exists>pre pub. calls demo_params no_id_env demo_world =
      pre @ [CreateDeployment demo_request] @ pub @
        [WaitFor \<lparr>wp_deploymentId = [], wp_maxAttempts = Finite 20\<rparr>]) \<and>
   fst (execute demo_params no_id_env demo_world) = Inr ()"
proof -
  have h1: "CreateDeployment demo_request \<in> set (calls demo_params no_id_env demo_world)"
    by code_simp
  have h2: "createDeployment no_id_env demo_request = Inr None"
    by (simp add: no_id_env_def)
  have w: "setWaiterParams [] (timeoutInMins demo_params) = \<lparr>wp_deploymentId = [], wp_maxAttempts = Finite 20\<rparr>"
    by code_simp
  have e: "waitFor no_id_env \<lparr>wp_deploymentId = [], wp_maxAttempts = Finite 20\<rparr> = None"
    by (simp add: no_id_env_def demo_env_def)
  from missing_deployment_id_continues [OF h1 h2] h2 w e show ?thesis
    by auto
qed

text \<open>
  C9. An empty bundle prefix is no prefix: the run is, call for call, the run without a
  prefix, and the key of its upload is the basename of the uploaded archive, with no slash
  in front.
\<close>

theorem empty_prefix_is_no_prefix:
  assumes "bundlePrefix p = Some []"
  shows "execute p env w = execute (p\<lparr>bundlePrefix := None\<rparr>) env w \<and>
         (\<forall>req. Upload req \<in> set (calls p env w) \<longrightarrow>
            Key req = basename (platform env) (Body req) \<and>
            Key req \<noteq> ''/'' @ basename (platform env) (Body req))"
proof -
  have "Key req = basename (platform env) (Body req)"
    if "Upload req \<in> set (calls p env w)" for req
    using upload_call [OF that] assms by (simp add: bundleObjectKey_simps)
  then show ?thesis using empty_prefix_same_run [OF assms] by auto
qed

text \<open>An instance of C9: the demo run with the empty prefix.\<close>

theorem empty_prefix_is_no_prefix_witness:
  "bundlePrefix empty_prefix_params = Some [] \<and>
   execute empty_prefix_params demo_env demo_world = execute no_prefix_params demo_env demo_world \<and>
   Upload \<lparr>Bucket = ''bkt'', Key = ''app.v123.zip'', Body = ''/tmp/app.v123.zip'', ACL = None\<rparr>
     \<in> set (calls empty_prefix_params demo_env demo_world) \<and>
   basename Posix ''/tmp/app.v123.zip'' = ''app.v123.zip''"
proof -
  let ?V = "\<lparr>Bucket = ''bkt'', Key = ''app.v123.zip'', Body = ''/tmp/app.v123.zip'', ACL = None\<rparr>"
  have h: "bundlePrefix empty_prefix_params = Some []"
    by (simp add: empty_prefix_params_def)
  have u: "Upload ?V \<in> set (calls empty_prefix_params demo_env demo_world)" by code_simp
  have e: "empty_prefix_params\<lparr>bundlePrefix := None\<rparr> = no_prefix_params"
    by (simp add: empty_prefix_params_def no_prefix_params_def)
  have pf: "platform demo_env = Posix" by (simp add: demo_env_def)
  note T = empty_prefix_is_no_prefix [OF h, where env = demo_env and w = demo_world]
  from T u have "Key ?V = basename (platform demo_env) (Body ?V)" by blast
  then have b: "basename Posix ''/tmp/app.v123.zip'' = ''app.v123.zip''" by (simp add: pf)
  from T h u e b show ?thesis by simp
qed

text \<open>
  C10. A key that ends in a dot is deployed with the type \<^verbatim>\<open>zip\<close>, not with an empty
  type: its extension is empty or the dot alone.
\<close>

theorem trailing_dot_means_zip:
  assumes "CreateDeployment req \<in> set (calls p env w)"
    and "s3_key (cd_s3Location req) \<noteq> []"
    and "last (s3_key (cd_s3Location req)) = CHR ''.''"
  shows "s3_bundleType (cd_s3Location req) = ''zip'' \<and>
         s3_bundleType (cd_s3Location req) \<noteq> [] \<and>
         (extname (platform env) (s3_key (cd_s3Location req)) = [] \<or>
          extname (platform env) (s3_key (cd_s3Location req)) = ''.'')"
proof -
  from submit_call [OF assms(1)]
  have t: "s3_bundleType (cd_s3Location req) =
             archiveTypeOf env (s3_key (cd_s3Location req))" by simp
  from archiveTypeOf_trailing_dot [OF assms(2,3)] t
  have "s3_bundleType (cd_s3Location req) = ''zip''" by simp
  with extname_trailing_dot [OF assms(2,3)] show ?thesis by simp
qed

text \<open>An instance of C10: the key \<^verbatim>\<open>bundle.\<close>.\<close>

theorem trailing_dot_means_zip_witness:
  "CreateDeployment dot_request \<in> set (calls dot_key_params demo_env demo_world) \<and>
   s3_key (cd_s3Location dot_request) = ''bundle.'' \<and>
   s3_bundleType (cd_s3Location dot_request) = ''zip'' \<and>
   extname Posix ''bundle.'' = ''.''"
proof -
  have h1: "CreateDeployment dot_request \<in> set (calls dot_key_params demo_env demo_world)"
    by code_simp
  have k: "s3_key (cd_s3Location dot_request) = ''bundle.''"
    by (simp add: dot_request_def)
  have h2: "s3_key (cd_s3Location dot_request) \<noteq> []"
    and h3: "last (s3_key (cd_s3Location dot_request)) = CHR ''.''"
    by (simp_all add: k)
  have e: "extname Posix ''bundle.'' = ''.''" by code_simp
  from trailing_dot_means_zip [OF h1 h2 h3] h1 k e show ?thesis by simp
qed

end
